theory Spec2Isabelle
  imports Main "HOL-Library.Word" "HOL-Library.Finite_Map" "HOL-Library.Multiset"
begin

unbundle bit_operations_syntax

section \<open>The table-entry store of the fabric simulator (pkg/simulator/entries/table.go)\<close>

text \<open>
  A shallow embedding of \<^verbatim>\<open>table.go\<close>. Go pointers to rows and tables are
  modelled by value and the receiver is passed explicitly: a method that mutates its
  receiver returns the updated receiver, a method that fails returns the error and leaves
  the receiver as it was (every error return of the source precedes the first write to
  the table). The in-place sort of a caller-supplied slice is visible in the model as the
  sorted list stored in, or returned next to, the result.
\<close>

type_synonym byte = "8 word"
type_synonym bytes = "byte list"

subsection \<open>crypto/sha1\<close>

text \<open>
  Modelled from the spec: the fixed-digest incremental hash of the key deriver. The code
  takes it from \<^verbatim>\<open>crypto/sha1\<close> of the Go standard library
  (\<^verbatim>\<open>sha1.New()\<close>, \<^verbatim>\<open>Write\<close>, \<^verbatim>\<open>Sum(nil)\<close>), which is not part of
  the repository. The digest is SHA-1 as FIPS 180-4 defines it, on 32-bit unsigned values
  held in \<^typ>\<open>nat\<close> with the wrap-around written out.
\<close>

definition add32 :: "nat \<Rightarrow> nat \<Rightarrow> nat" where
  "add32 a b = (a + b) mod 2 ^ 32"

definition rotl32 :: "nat \<Rightarrow> nat \<Rightarrow> nat" where
  "rotl32 n x = (x * 2 ^ n) mod 2 ^ 32 OR x div 2 ^ (32 - n)"

definition not32 :: "nat \<Rightarrow> nat" where
  "not32 x = 2 ^ 32 - 1 - x"

definition be32 :: "nat list \<Rightarrow> nat" where
  "be32 bs = foldl (\<lambda>acc b. acc * 256 + b) 0 bs"

definition putUint32 :: "nat \<Rightarrow> bytes" where
  "putUint32 x =
     map of_nat [x div 2 ^ 24 mod 256, x div 2 ^ 16 mod 256, x div 2 ^ 8 mod 256, x mod 256]"

definition putUint64 :: "nat \<Rightarrow> nat list" where
  "putUint64 x =
     [x div 2 ^ 56 mod 256, x div 2 ^ 48 mod 256, x div 2 ^ 40 mod 256, x div 2 ^ 32 mod 256,
      x div 2 ^ 24 mod 256, x div 2 ^ 16 mod 256, x div 2 ^ 8 mod 256, x mod 256]"

definition sha1_pad :: "nat list \<Rightarrow> nat list" where
  "sha1_pad msg =
     msg @ [0x80] @ replicate ((119 - length msg mod 64) mod 64) 0
         @ putUint64 ((8 * length msg) mod 2 ^ 64)"

fun sha1_words :: "nat list \<Rightarrow> nat list" where
  "sha1_words (b0 # b1 # b2 # b3 # bs) = be32 [b0, b1, b2, b3] # sha1_words bs"
| "sha1_words bs = []"

fun sha1_expand :: "nat \<Rightarrow> nat \<Rightarrow> nat list \<Rightarrow> nat list" where
  "sha1_expand 0 t ws = ws"
| "sha1_expand (Suc n) t ws =
     sha1_expand n (t + 1)
       (ws @ [rotl32 1 (ws ! (t - 3) XOR ws ! (t - 8) XOR ws ! (t - 14) XOR ws ! (t - 16))])"

definition sha1_f :: "nat \<Rightarrow> nat \<Rightarrow> nat \<Rightarrow> nat \<Rightarrow> nat" where
  "sha1_f t b c d =
     (if t < 20 then (b AND c) OR (not32 b AND d)
      else if t < 40 then b XOR c XOR d
      else if t < 60 then (b AND c) OR (b AND d) OR (c AND d)
      else b XOR c XOR d)"

definition sha1_k :: "nat \<Rightarrow> nat" where
  "sha1_k t =
     (if t < 20 then 0x5A827999
      else if t < 40 then 0x6ED9EBA1
      else if t < 60 then 0x8F1BBCDC
      else 0xCA62C1D6)"

type_synonym sha1_state = "nat \<times> nat \<times> nat \<times> nat \<times> nat"

fun sha1_rounds :: "nat \<Rightarrow> nat list \<Rightarrow> sha1_state \<Rightarrow> sha1_state" where
  "sha1_rounds t [] s = s"
| "sha1_rounds t (w # ws) (a, b, c, d, e) =
     sha1_rounds (t + 1) ws
       (add32 (add32 (add32 (add32 (rotl32 5 a) (sha1_f t b c d)) e) w) (sha1_k t),
        a, rotl32 30 b, c, d)"

fun sha1_add :: "sha1_state \<Rightarrow> sha1_state \<Rightarrow> sha1_state" where
  "sha1_add (h0, h1, h2, h3, h4) (a, b, c, d, e) =
     (add32 h0 a, add32 h1 b, add32 h2 c, add32 h3 d, add32 h4 e)"

definition sha1_block :: "sha1_state \<Rightarrow> nat list \<Rightarrow> sha1_state" where
  "sha1_block h blk = sha1_add h (sha1_rounds 0 (sha1_expand 64 16 (sha1_words blk)) h)"

fun sha1_blocks :: "nat \<Rightarrow> sha1_state \<Rightarrow> nat list \<Rightarrow> sha1_state" where
  "sha1_blocks 0 h bs = h"
| "sha1_blocks (Suc n) h bs = sha1_blocks n (sha1_block h (take 64 bs)) (drop 64 bs)"

fun sha1_sum :: "sha1_state \<Rightarrow> bytes" where
  "sha1_sum (h0, h1, h2, h3, h4) =
     putUint32 h0 @ putUint32 h1 @ putUint32 h2 @ putUint32 h3 @ putUint32 h4"

definition sha1_init :: sha1_state where
  "sha1_init = (0x67452301, 0xEFCDAB89, 0x98BADCFE, 0x10325476, 0xC3D2E1F0)"

definition sha1 :: "bytes \<Rightarrow> bytes" where
  "sha1 msg =
     sha1_sum (sha1_blocks (length (sha1_pad (map unat msg)) div 64) sha1_init
                 (sha1_pad (map unat msg)))"

text \<open>
  The incremental hash \<^verbatim>\<open>hash.Hash\<close>: its state is the byte stream written so
  far, \<^verbatim>\<open>Write\<close> appends to it and \<^verbatim>\<open>Sum(nil)\<close> is the digest of the stream.
\<close>

type_synonym hash_Hash = bytes

definition sha1_New :: hash_Hash where
  "sha1_New = []"

definition hash_Write :: "hash_Hash \<Rightarrow> bytes \<Rightarrow> hash_Hash" where
  "hash_Write hf bs = hf @ bs"

definition hash_Sum :: "hash_Hash \<Rightarrow> bytes" where
  "hash_Sum hf = sha1 hf"

subsection \<open>Messages of p4info and p4api\<close>

text \<open>
  Modelled from the spec: the message types \<^verbatim>\<open>p4info.Table\<close>,
  \<^verbatim>\<open>p4api.TableEntry\<close>, \<^verbatim>\<open>p4api.FieldMatch\<close>, \<^verbatim>\<open>p4api.CounterData\<close>,
  \<^verbatim>\<open>p4api.MeterConfig\<close>, \<^verbatim>\<open>p4api.MeterCounterData\<close>,
  \<^verbatim>\<open>p4api.DirectCounterEntry\<close>, \<^verbatim>\<open>p4api.DirectMeterEntry\<close> and
  \<^verbatim>\<open>p4api.Entity\<close>. They come from the P4Runtime Go bindings, which are not part of
  the repository; they are declared here with the fields the code reads. An unset message
  field (a nil pointer in Go) is \<^term>\<open>None\<close>. The action of a table entry is never
  inspected by the store and is kept as an opaque reference.
\<close>

record p4info_Preamble =
  Id :: "32 word"
  Name :: string

record p4info_MatchField =
  MatchField_Id :: "32 word"
  MatchField_Name :: string
  Bitwidth :: "32 word"

record p4info_Table =
  Preamble :: p4info_Preamble
  MatchFields :: "p4info_MatchField list"

record p4api_CounterData =
  ByteCount :: "64 word"
  PacketCount :: "64 word"

record p4api_MeterConfig =
  Cir :: "64 word"
  Cburst :: "64 word"
  Pir :: "64 word"
  Pburst :: "64 word"

record p4api_MeterCounterData =
  Green :: "p4api_CounterData option"
  Yellow :: "p4api_CounterData option"
  Red :: "p4api_CounterData option"

text \<open>
  The \<^verbatim>\<open>oneof field_match_type\<close> of a field match. \<open>FieldMatch_Lpm v n\<close> carries
  the value bytes and the \<^verbatim>\<open>int32\<close> prefix length, \<open>FieldMatch_Ternary v m\<close> the
  value and the mask, \<open>FieldMatch_Range l h\<close> the low and the high bound.
\<close>

datatype p4api_FieldMatchType =
    FieldMatch_Exact bytes
  | FieldMatch_Ternary bytes bytes
  | FieldMatch_Lpm bytes "32 word"
  | FieldMatch_Range bytes bytes
  | FieldMatch_Optional bytes
  | FieldMatch_Other bytes

record p4api_FieldMatch =
  FieldId :: "32 word"
  FieldMatchType :: "p4api_FieldMatchType option"

record p4api_TableEntry =
  TableId :: "32 word"
  Match :: "p4api_FieldMatch list"
  Action :: "32 word option"
  Priority :: "32 word"
  MeterConfig :: "p4api_MeterConfig option"
  CounterData :: "p4api_CounterData option"
  MeterCounterData :: "p4api_MeterCounterData option"
  IsDefaultAction :: bool

record p4api_DirectCounterEntry =
  DirectCounter_TableEntry :: "p4api_TableEntry option"
  DirectCounter_Data :: "p4api_CounterData option"

record p4api_DirectMeterEntry =
  DirectMeter_TableEntry :: "p4api_TableEntry option"
  DirectMeter_Config :: "p4api_MeterConfig option"
  DirectMeter_CounterData :: "p4api_MeterCounterData option"

datatype p4api_Entity =
    Entity_TableEntry p4api_TableEntry
  | Entity_DirectCounterEntry p4api_DirectCounterEntry
  | Entity_DirectMeterEntry p4api_DirectMeterEntry

text \<open>The generated getters: the payload when the oneof holds that case, nil otherwise.\<close>

definition GetExact :: "p4api_FieldMatch \<Rightarrow> bytes option" where
  "GetExact m = (case FieldMatchType m of Some (FieldMatch_Exact v) \<Rightarrow> Some v | _ \<Rightarrow> None)"

definition GetLpm :: "p4api_FieldMatch \<Rightarrow> (bytes \<times> 32 word) option" where
  "GetLpm m = (case FieldMatchType m of Some (FieldMatch_Lpm v n) \<Rightarrow> Some (v, n) | _ \<Rightarrow> None)"

definition GetRange :: "p4api_FieldMatch \<Rightarrow> (bytes \<times> bytes) option" where
  "GetRange m = (case FieldMatchType m of Some (FieldMatch_Range l h) \<Rightarrow> Some (l, h) | _ \<Rightarrow> None)"

definition GetTernary :: "p4api_FieldMatch \<Rightarrow> (bytes \<times> bytes) option" where
  "GetTernary m =
     (case FieldMatchType m of Some (FieldMatch_Ternary v k) \<Rightarrow> Some (v, k) | _ \<Rightarrow> None)"

definition GetOptional :: "p4api_FieldMatch \<Rightarrow> bytes option" where
  "GetOptional m = (case FieldMatchType m of Some (FieldMatch_Optional v) \<Rightarrow> Some v | _ \<Rightarrow> None)"

subsection \<open>Errors\<close>

text \<open>
  Modelled from the spec: the error kinds. The store raises them through
  \<^verbatim>\<open>errors.NewNotFound\<close>, \<^verbatim>\<open>errors.NewAlreadyExists\<close> and
  \<^verbatim>\<open>errors.NewInvalid\<close> of \<^verbatim>\<open>onos-lib-go\<close>, which is not part of the
  repository; the message of an error is left out. \<open>NilDereference\<close> is the run-time
  panic of reading a field through a nil pointer.
\<close>

datatype error = NotFound | AlreadyExists | Invalid | NilDereference

subsection \<open>Rows and tables\<close>

record Row =
  entry :: p4api_TableEntry
  counterData :: "p4api_CounterData option"
  meterConfig :: "p4api_MeterConfig option"
  meterData :: "p4api_MeterCounterData option"

record Table =
  info :: p4info_Table
  rows :: "(bytes, Row) fmap"
  defaultRow :: "Row option"

record Tables =
  tables :: "(32 word, Table) fmap"

datatype ReadType = ReadTableEntry | ReadDirectCounter | ReadDirectMeter

text \<open>
  \<^verbatim>\<open>NewTable\<close> sorts \<^verbatim>\<open>table.MatchFields\<close> with \<^verbatim>\<open>sort.SliceStable\<close>, in
  the slice the caller handed in, and keeps the pointer to the descriptor. The first
  component of the result is the caller's descriptor as the call leaves it, the second
  the new table. A stable sort by a key is \<^const>\<open>sort_key\<close>.
\<close>

definition NewTable :: "p4info_Table \<Rightarrow> p4info_Table \<times> Table" where
  "NewTable table =
     (let table' = table\<lparr>MatchFields := sort_key MatchField_Id (MatchFields table)\<rparr>
      in (table', \<lparr>info = table', rows = fmempty, defaultRow = None\<rparr>))"

definition CounterData_zero :: p4api_CounterData where
  "CounterData_zero = \<lparr>ByteCount = 0, PacketCount = 0\<rparr>"

definition newRow :: "p4api_TableEntry \<Rightarrow> Row" where
  "newRow e =
     (let row = \<lparr>entry = e, counterData = Some CounterData_zero,
                 meterConfig = MeterConfig e, meterData = None\<rparr>;
          row = (if CounterData e \<noteq> None then row\<lparr>counterData := CounterData e\<rparr> else row);
          row = (if MeterCounterData e \<noteq> None then row\<lparr>meterData := MeterCounterData e\<rparr>
                 else row)
      in row)"

definition Size :: "Table \<Rightarrow> nat" where
  "Size t =
     (if defaultRow t \<noteq> None then fcard (fmdom (rows t)) + 1 else fcard (fmdom (rows t)))"

subsection \<open>Key derivation\<close>

definition sortFieldMatches :: "p4api_FieldMatch list \<Rightarrow> p4api_FieldMatch list" where
  "sortFieldMatches matches = sort_key FieldId matches"

text \<open>
  \<^verbatim>\<open>writeHash\<close> takes an \<^verbatim>\<open>int32\<close>: the masks leave a non-negative value, the
  shifts are the arithmetic shifts of a signed integer, and the conversion to
  \<^verbatim>\<open>byte\<close> keeps the low eight bits.
\<close>

definition writeHash :: "hash_Hash \<Rightarrow> 32 word \<Rightarrow> hash_Hash" where
  "writeHash hash n =
     hash_Write hash
       [ucast (signed_drop_bit 24 (n AND 0xff0000)),
        ucast (signed_drop_bit 16 (n AND 0xff0000)),
        ucast (signed_drop_bit 8 (n AND 0xff00)),
        ucast (n AND 0xff)]"

text \<open>
  The encoding the specification names for the prefix length, for comparison with
  \<^const>\<open>writeHash\<close>: the four bytes of the 32-bit value, most significant first.
\<close>

definition spec_bigEndianInt32 :: "32 word \<Rightarrow> bytes" where
  "spec_bigEndianInt32 n =
     [ucast (drop_bit 24 n), ucast (drop_bit 16 n), ucast (drop_bit 8 n), ucast n]"

definition validateMatch :: "Table \<Rightarrow> nat \<Rightarrow> p4api_FieldMatch \<Rightarrow> error option" where
  "validateMatch t i m = (if i \<ge> length (MatchFields (info t)) then Some Invalid else None)"

text \<open>The \<^verbatim>\<open>switch\<close> of \<^verbatim>\<open>entryKey\<close>: the first getter that is not nil decides.\<close>

definition hashMatch :: "hash_Hash \<Rightarrow> p4api_FieldMatch \<Rightarrow> hash_Hash" where
  "hashMatch hf m =
     (case GetExact m of
        Some v \<Rightarrow> hash_Write (hash_Write hf [0x01]) v
      | None \<Rightarrow>
     (case GetLpm m of
        Some (v, n) \<Rightarrow> hash_Write (writeHash (hash_Write hf [0x02]) n) v
      | None \<Rightarrow>
     (case GetRange m of
        Some (l, h) \<Rightarrow> hash_Write (hash_Write (hash_Write hf [0x03]) l) h
      | None \<Rightarrow>
     (case GetTernary m of
        Some (v, k) \<Rightarrow> hash_Write (hash_Write (hash_Write hf [0x04]) k) v
      | None \<Rightarrow>
     (case GetOptional m of
        Some v \<Rightarrow> hash_Write (hash_Write hf [0x05]) v
      | None \<Rightarrow> hf)))))"

fun entryKey_loop ::
  "Table \<Rightarrow> nat \<Rightarrow> p4api_FieldMatch list \<Rightarrow> hash_Hash \<Rightarrow> error + hash_Hash" where
  "entryKey_loop t i [] hf = Inr hf"
| "entryKey_loop t i (m # ms) hf =
     (case validateMatch t i m of
        Some err \<Rightarrow> Inl err
      | None \<Rightarrow> entryKey_loop t (i + 1) ms (hashMatch hf m))"

definition entryKey :: "Table \<Rightarrow> p4api_TableEntry \<Rightarrow> error + bytes" where
  "entryKey t e =
     (case entryKey_loop t 0 (Match e) sha1_New of
        Inl err \<Rightarrow> Inl err
      | Inr hf \<Rightarrow> Inr (hash_Sum hf))"

subsection \<open>Table operations\<close>

text \<open>
  In \<^verbatim>\<open>ModifyTableEntry\<close> the row is the one found at the key, or the new row of an
  insert: past the two error returns a missing row means an insert. The row is a
  pointer held by the map, so the writes to it are writes to the map. The parameter
  \<^verbatim>\<open>insert\<close> is \<open>ins\<close> here.
\<close>

definition ModifyTableEntry :: "Table \<Rightarrow> p4api_TableEntry \<Rightarrow> bool \<Rightarrow> error + Table" where
  "ModifyTableEntry t e ins =
     (if IsDefaultAction e then
        (if ins then Inl Invalid
         else if length (Match e) > 0 then Inl Invalid
         else Inr (t\<lparr>defaultRow := Some (newRow e)\<rparr>))
      else
        (let e = e\<lparr>Match := sortFieldMatches (Match e)\<rparr> in
         case entryKey t e of
           Inl err \<Rightarrow> Inl err
         | Inr key \<Rightarrow>
            (let r = fmlookup (rows t) key; ok = (r \<noteq> None) in
             if ok \<and> ins then Inl AlreadyExists
             else if \<not> ok \<and> \<not> ins then Inl NotFound
             else
               (let row = (case r of None \<Rightarrow> newRow e | Some row \<Rightarrow> row);
                    row = row\<lparr>entry := e, meterConfig := MeterConfig e\<rparr>;
                    row = (if \<not> ins \<and> CounterData e \<noteq> None
                           then row\<lparr>counterData := CounterData e\<rparr> else row)
                in Inr (t\<lparr>rows := fmupd key row (rows t)\<rparr>)))))"

definition RemoveTableEntry :: "Table \<Rightarrow> p4api_TableEntry \<Rightarrow> error + Table" where
  "RemoveTableEntry t e =
     (if IsDefaultAction e then Inl Invalid
      else
        (let e = e\<lparr>Match := sortFieldMatches (Match e)\<rparr> in
         case entryKey t e of
           Inl err \<Rightarrow> Inl err
         | Inr key \<Rightarrow> Inr (t\<lparr>rows := fmdrop key (rows t)\<rparr>)))"

definition ModifyDirectCounterEntry :: "Table \<Rightarrow> p4api_DirectCounterEntry \<Rightarrow> error + Table" where
  "ModifyDirectCounterEntry t dce =
     (case DirectCounter_TableEntry dce of
        None \<Rightarrow> Inl NilDereference
      | Some te \<Rightarrow>
         (let te = te\<lparr>Match := sortFieldMatches (Match te)\<rparr> in
          case entryKey t te of
            Inl err \<Rightarrow> Inl err
          | Inr key \<Rightarrow>
             (case fmlookup (rows t) key of
                None \<Rightarrow> Inl NotFound
              | Some row \<Rightarrow>
                  Inr (t\<lparr>rows := fmupd key (row\<lparr>counterData := DirectCounter_Data dce\<rparr>)
                                    (rows t)\<rparr>))))"

definition ModifyDirectMeterEntry :: "Table \<Rightarrow> p4api_DirectMeterEntry \<Rightarrow> error + Table" where
  "ModifyDirectMeterEntry t dme =
     (case DirectMeter_TableEntry dme of
        None \<Rightarrow> Inl NilDereference
      | Some te \<Rightarrow>
         (let te = te\<lparr>Match := sortFieldMatches (Match te)\<rparr> in
          case entryKey t te of
            Inl err \<Rightarrow> Inl err
          | Inr key \<Rightarrow>
             (case fmlookup (rows t) key of
                None \<Rightarrow> Inl NotFound
              | Some row \<Rightarrow>
                  Inr (t\<lparr>rows := fmupd key (row\<lparr>meterConfig := DirectMeter_Config dme\<rparr>)
                                    (rows t)\<rparr>))))"

text \<open>
  A client's sequence of \<^verbatim>\<open>ModifyTableEntry\<close> calls, each on the table the one
  before it left, up to the first error.
\<close>

fun ModifyTableEntries :: "Table \<Rightarrow> p4api_TableEntry list \<Rightarrow> bool \<Rightarrow> error + Table" where
  "ModifyTableEntries t [] ins = Inr t"
| "ModifyTableEntries t (e # es) ins =
     (case ModifyTableEntry t e ins of
        Inl err \<Rightarrow> Inl err
      | Inr t' \<Rightarrow> ModifyTableEntries t' es ins)"

subsection \<open>The registry\<close>

definition Tables_ModifyDirectCounterEntry ::
  "Tables \<Rightarrow> p4api_DirectCounterEntry \<Rightarrow> bool \<Rightarrow> error + Tables" where
  "Tables_ModifyDirectCounterEntry ts dce ins =
     (if ins then Inl Invalid
      else
        (case DirectCounter_TableEntry dce of
           None \<Rightarrow> Inl NilDereference
         | Some te \<Rightarrow>
            (case fmlookup (tables ts) (TableId te) of
               None \<Rightarrow> Inl NotFound
             | Some table \<Rightarrow>
                (case ModifyDirectCounterEntry table dce of
                   Inl err \<Rightarrow> Inl err
                 | Inr table' \<Rightarrow> Inr (ts\<lparr>tables := fmupd (TableId te) table' (tables ts)\<rparr>)))))"

definition Tables_ModifyDirectMeterEntry ::
  "Tables \<Rightarrow> p4api_DirectMeterEntry \<Rightarrow> bool \<Rightarrow> error + Tables" where
  "Tables_ModifyDirectMeterEntry ts dme ins =
     (if ins then Inl Invalid
      else
        (case DirectMeter_TableEntry dme of
           None \<Rightarrow> Inl NilDereference
         | Some te \<Rightarrow>
            (case fmlookup (tables ts) (TableId te) of
               None \<Rightarrow> Inl NotFound
             | Some table \<Rightarrow>
                (case ModifyDirectMeterEntry table dme of
                   Inl err \<Rightarrow> Inl err
                 | Inr table' \<Rightarrow> Inr (ts\<lparr>tables := fmupd (TableId te) table' (tables ts)\<rparr>)))))"

subsection \<open>Reading through the entity buffer\<close>

text \<open>
  A \<^verbatim>\<open>BatchSender\<close> is a callback of the caller. It may fail, and it may keep a
  state of its own (a sender that records what it is given, a stream that breaks after a
  number of messages): the state \<open>'s\<close> is threaded through every invocation. The
  sender sees the buffered slice as it is when the call is made.
\<close>

type_synonym 's BatchSender = "p4api_Entity list \<Rightarrow> 's \<Rightarrow> error option \<times> 's"

text \<open>
  The slice \<^verbatim>\<open>entities\<close> is made with length 0 and capacity 64, and
  \<^verbatim>\<open>entities[:0]\<close> keeps the capacity: \<open>cap\<close> is the capacity of the slice.
  The buffer is flushed as soon as its length reaches the capacity, so the length is
  below the capacity whenever \<^verbatim>\<open>sendEntity\<close> is entered and \<^verbatim>\<open>append\<close> never
  has to grow the slice; \<open>sendEntity\<close> below is the code on such buffers.
\<close>

record 's entityBuffer =
  entities :: "p4api_Entity list"
  cap :: nat
  sender :: "'s BatchSender"

definition newBuffer :: "'s BatchSender \<Rightarrow> 's entityBuffer" where
  "newBuffer sndr = \<lparr>entities = [], cap = 64, sender = sndr\<rparr>"

definition flush :: "'s entityBuffer \<Rightarrow> 's \<Rightarrow> error option \<times> 's entityBuffer \<times> 's" where
  "flush eb s =
     (case sender eb (entities eb) s of
        (err, s') \<Rightarrow> (err, eb\<lparr>entities := []\<rparr>, s'))"

definition sendEntity ::
  "'s entityBuffer \<Rightarrow> p4api_Entity \<Rightarrow> 's \<Rightarrow> error option \<times> 's entityBuffer \<times> 's" where
  "sendEntity eb entity s =
     (let eb = eb\<lparr>entities := entities eb @ [entity]\<rparr> in
      if length (entities eb) = cap eb then flush eb s else (None, eb, s))"

definition getEntry :: "ReadType \<Rightarrow> Row \<Rightarrow> p4api_Entity" where
  "getEntry readType row =
     (case readType of
        ReadDirectCounter \<Rightarrow>
          Entity_DirectCounterEntry
            \<lparr>DirectCounter_TableEntry = Some (entry row), DirectCounter_Data = counterData row\<rparr>
      | ReadDirectMeter \<Rightarrow>
          Entity_DirectMeterEntry
            \<lparr>DirectMeter_TableEntry = Some (entry row), DirectMeter_Config = meterConfig row,
             DirectMeter_CounterData = meterData row\<rparr>
      | ReadTableEntry \<Rightarrow> Entity_TableEntry (entry row))"

definition tableEntryMatches :: "Table \<Rightarrow> p4api_TableEntry \<Rightarrow> p4api_TableEntry \<Rightarrow> bool" where
  "tableEntryMatches t request e = True"

fun ReadTableEntries_loop ::
  "Table \<Rightarrow> p4api_TableEntry \<Rightarrow> ReadType \<Rightarrow> Row list \<Rightarrow> 's entityBuffer \<Rightarrow> 's
     \<Rightarrow> error option \<times> 's entityBuffer \<times> 's" where
  "ReadTableEntries_loop t request readType [] buffer s = (None, buffer, s)"
| "ReadTableEntries_loop t request readType (row # rs) buffer s =
     (if tableEntryMatches t request (entry row) then
        (case sendEntity buffer (getEntry readType row) s of
           (Some err, buffer', s') \<Rightarrow> (Some err, buffer', s')
         | (None, buffer', s') \<Rightarrow> ReadTableEntries_loop t request readType rs buffer' s')
      else ReadTableEntries_loop t request readType rs buffer s)"

text \<open>
  Go leaves the order in which \<^verbatim>\<open>range\<close> visits a map open. \<open>order\<close> is the
  sequence of keys that one run of the loop visits; the rows it yields are those stored
  under these keys.
\<close>

definition rowsInOrder :: "Table \<Rightarrow> bytes list \<Rightarrow> Row list" where
  "rowsInOrder t order = List.map_filter (fmlookup (rows t)) order"

definition ReadTableEntries ::
  "Table \<Rightarrow> bytes list \<Rightarrow> p4api_TableEntry \<Rightarrow> ReadType \<Rightarrow> 's BatchSender \<Rightarrow> 's
     \<Rightarrow> error option \<times> 's" where
  "ReadTableEntries t order request readType sndr s =
     (case ReadTableEntries_loop t request readType (rowsInOrder t order) (newBuffer sndr) s of
        (Some err, buffer, s) \<Rightarrow> (Some err, s)
      | (None, buffer, s) \<Rightarrow>
         (case (case defaultRow t of
                  None \<Rightarrow> (None, buffer, s)
                | Some row \<Rightarrow> sendEntity buffer (getEntry readType row) s) of
            (Some err, buffer, s) \<Rightarrow> (Some err, s)
          | (None, buffer, s) \<Rightarrow> (case flush buffer s of (err, buffer, s) \<Rightarrow> (err, s))))"

text \<open>
  The entities one read is to produce: the rows in the order the loop visits them, then
  the default row when there is one, each projected by \<^const>\<open>getEntry\<close>.
\<close>

definition readEntities :: "Table \<Rightarrow> bytes list \<Rightarrow> ReadType \<Rightarrow> p4api_Entity list" where
  "readEntities t order readType =
     map (getEntry readType)
       (rowsInOrder t order @ (case defaultRow t of None \<Rightarrow> [] | Some row \<Rightarrow> [row]))"

text \<open>
  A sender that records each batch it is handed, with the result of the sender it wraps:
  its state is the state of the wrapped sender and the log of the invocations so far.
\<close>

definition recording ::
  "'s BatchSender \<Rightarrow> ('s \<times> (p4api_Entity list \<times> error option) list) BatchSender" where
  "recording sndr batch st =
     (case st of (s, log) \<Rightarrow>
        (case sndr batch s of (r, s') \<Rightarrow> (r, (s', log @ [(batch, r)]))))"

subsection \<open>Example data\<close>

text \<open>
  A descriptor of table 7 with two match fields, listed with field 2 before field 1, the
  table made from it, and entries for it.
\<close>

definition ex_info :: p4info_Table where
  "ex_info =
     \<lparr>Preamble = \<lparr>Id = 7, Name = ''acl''\<rparr>,
      MatchFields =
        [\<lparr>MatchField_Id = 2, MatchField_Name = ''dst'', Bitwidth = 32\<rparr>,
         \<lparr>MatchField_Id = 1, MatchField_Name = ''src'', Bitwidth = 32\<rparr>]\<rparr>"

definition ex_table :: Table where
  "ex_table = snd (NewTable ex_info)"

definition ex_exact :: "32 word \<Rightarrow> bytes \<Rightarrow> p4api_FieldMatch" where
  "ex_exact i v = \<lparr>FieldId = i, FieldMatchType = Some (FieldMatch_Exact v)\<rparr>"

definition ex_entry :: p4api_TableEntry where
  "ex_entry =
     \<lparr>TableId = 7, Match = [ex_exact 1 [0x0A]], Action = Some 1, Priority = 0,
      MeterConfig = None, CounterData = None, MeterCounterData = None,
      IsDefaultAction = False\<rparr>"

definition ex_key :: bytes where
  "ex_key = sha1 [0x01, 0x0A]"

definition ex_table_1 :: Table where
  "ex_table_1 = ex_table\<lparr>rows := fmupd ex_key (newRow ex_entry) fmempty\<rparr>"

definition ex_entry_counted :: p4api_TableEntry where
  "ex_entry_counted = ex_entry\<lparr>CounterData := Some \<lparr>ByteCount = 500, PacketCount = 7\<rparr>\<rparr>"

text \<open>Two orders of a match on field 1 and a match on field 2.\<close>

definition ex_pair_a :: "p4api_FieldMatch list" where
  "ex_pair_a = [ex_exact 2 [0x02], ex_exact 1 [0x01]]"

definition ex_pair_b :: "p4api_FieldMatch list" where
  "ex_pair_b = [ex_exact 1 [0x01], ex_exact 2 [0x02]]"

text \<open>A field match with no payload, and the example entry with it appended.\<close>

definition ex_unset :: p4api_FieldMatch where
  "ex_unset = \<lparr>FieldId = 2, FieldMatchType = None\<rparr>"

definition ex_entry_padded :: p4api_TableEntry where
  "ex_entry_padded = ex_entry\<lparr>Match := take 1 (Match ex_entry) @ [ex_unset] @ drop 1 (Match ex_entry),
                               Action := Some 2\<rparr>"

text \<open>An LPM match on field 1 with the given prefix length.\<close>

definition ex_lpm :: "32 word \<Rightarrow> p4api_FieldMatch" where
  "ex_lpm n = \<lparr>FieldId = 1, FieldMatchType = Some (FieldMatch_Lpm [10, 0, 0, 0] n)\<rparr>"

text \<open>Default-action entries, direct-resource entries for the example entry, a registry.\<close>

definition ex_default :: p4api_TableEntry where
  "ex_default =
     \<lparr>TableId = 7, Match = [], Action = Some 9, Priority = 0,
      MeterConfig = None, CounterData = None, MeterCounterData = None,
      IsDefaultAction = True\<rparr>"

definition ex_default_2 :: p4api_TableEntry where
  "ex_default_2 =
     ex_default\<lparr>Action := Some 3,
                MeterConfig := Some \<lparr>Cir = 1, Cburst = 2, Pir = 3, Pburst = 4\<rparr>,
                CounterData := Some \<lparr>ByteCount = 11, PacketCount = 2\<rparr>\<rparr>"

definition ex_defaults :: "p4api_TableEntry list" where
  "ex_defaults = [ex_default, ex_default_2, ex_default]"

definition ex_default_bad :: p4api_TableEntry where
  "ex_default_bad = ex_default\<lparr>Match := [ex_exact 1 [0x0A]]\<rparr>"

text \<open>The table of one row, with a default row that has overlays of its own.\<close>

definition ex_table_d :: Table where
  "ex_table_d =
     ex_table_1\<lparr>defaultRow :=
       Some \<lparr>entry = ex_default_2,
             counterData = Some \<lparr>ByteCount = 900, PacketCount = 9\<rparr>,
             meterConfig = Some \<lparr>Cir = 5, Cburst = 6, Pir = 7, Pburst = 8\<rparr>,
             meterData = Some \<lparr>Green = None, Yellow = None, Red = None\<rparr>\<rparr>\<rparr>"

definition ex_dce :: p4api_DirectCounterEntry where
  "ex_dce =
     \<lparr>DirectCounter_TableEntry = Some ex_entry,
      DirectCounter_Data = Some \<lparr>ByteCount = 64, PacketCount = 1\<rparr>\<rparr>"

definition ex_dme :: p4api_DirectMeterEntry where
  "ex_dme =
     \<lparr>DirectMeter_TableEntry = Some ex_entry,
      DirectMeter_Config = Some \<lparr>Cir = 1, Cburst = 2, Pir = 3, Pburst = 4\<rparr>,
      DirectMeter_CounterData = None\<rparr>"

definition ex_tables :: Tables where
  "ex_tables = \<lparr>tables = fmupd 7 ex_table_1 fmempty\<rparr>"

text \<open>
  A sender that accepts every batch, a sender that refuses every batch, and a table of
  130 rows with an order of its keys.
\<close>

definition ex_sender :: "unit BatchSender" where
  "ex_sender batch s = (None, s)"

definition ex_sender_failing :: "unit BatchSender" where
  "ex_sender_failing batch s = (Some Invalid, s)"

definition ex_order_130 :: "bytes list" where
  "ex_order_130 = map (\<lambda>i. [of_nat i]) [0..<130]"

definition ex_table_130 :: Table where
  "ex_table_130 =
     ex_table\<lparr>rows := fmap_of_list (map (\<lambda>k. (k, newRow ex_entry)) ex_order_130)\<rparr>"

section \<open>Properties\<close>

subsection \<open>Key derivation as a function of the match list\<close>

lemma hashMatch_append: "hashMatch hf m = hf @ hashMatch [] m"
  by (simp add: hashMatch_def hash_Write_def writeHash_def split: option.splits prod.splits)

lemma entryKey_loop_eq:
  "entryKey_loop t i ms hf =
     (if ms = [] \<or> i + length ms \<le> length (MatchFields (info t))
      then Inr (hf @ concat (map (hashMatch []) ms)) else Inl Invalid)"
proof (induction ms arbitrary: i hf)
  case Nil
  then show ?case by simp
next
  case (Cons m ms)
  show ?case
    using hashMatch_append [of hf m]
    by (simp add: Cons.IH validateMatch_def)
qed

lemma entryKey_eq:
  "entryKey t e =
     (if length (Match e) \<le> length (MatchFields (info t))
      then Inr (sha1 (concat (map (hashMatch []) (Match e)))) else Inl Invalid)"
  by (simp add: entryKey_def entryKey_loop_eq sha1_New_def hash_Sum_def)

lemma entryKey_rows_upd [simp]: "entryKey (t\<lparr>rows := r\<rparr>) e = entryKey t e"
  by (simp add: entryKey_eq)

lemma entryKey_defaultRow_upd [simp]: "entryKey (t\<lparr>defaultRow := r\<rparr>) e = entryKey t e"
  by (simp add: entryKey_eq)

lemma newRow_fields [simp]:
  "entry (newRow e) = e"
  "meterConfig (newRow e) = MeterConfig e"
  "meterData (newRow e) = MeterCounterData e"
  "counterData (newRow e) =
     (case CounterData e of None \<Rightarrow> Some CounterData_zero | Some c \<Rightarrow> Some c)"
  by (auto simp: newRow_def Let_def split: option.splits)

subsection \<open>The example data\<close>

lemma ex_table_eq:
  "ex_table =
     \<lparr>info = \<lparr>Preamble = \<lparr>Id = 7, Name = ''acl''\<rparr>,
              MatchFields =
                [\<lparr>MatchField_Id = 1, MatchField_Name = ''src'', Bitwidth = 32\<rparr>,
                 \<lparr>MatchField_Id = 2, MatchField_Name = ''dst'', Bitwidth = 32\<rparr>]\<rparr>,
      rows = fmempty, defaultRow = None\<rparr>"
  by (simp add: ex_table_def ex_info_def NewTable_def Let_def word_le_nat_alt)

lemma ex_table_fields [simp]: "length (MatchFields (info ex_table)) = 2"
  by (simp add: ex_table_eq)

lemma ex_table_rows [simp]: "rows ex_table = fmempty"
  by (simp add: ex_table_eq)

lemma ex_table_defaultRow [simp]: "defaultRow ex_table = None"
  by (simp add: ex_table_eq)

lemma hashMatch_ex_exact [simp]: "hashMatch [] (ex_exact i v) = 0x01 # v"
  by (simp add: hashMatch_def ex_exact_def GetExact_def hash_Write_def)

lemma FieldId_ex_exact [simp]: "FieldId (ex_exact i v) = i"
  by (simp add: ex_exact_def)

lemma ex_entry_key:
  "entryKey ex_table (ex_entry\<lparr>Match := sortFieldMatches (Match ex_entry)\<rparr>) = Inr ex_key"
  by (simp add: entryKey_eq ex_entry_def sortFieldMatches_def ex_key_def)

subsection \<open>Insert and modify\<close>

text \<open>
  C1. For a non-default entry whose sorted match list has the key \<open>key\<close>: an insert
  on a table that has a row at \<open>key\<close> fails with AlreadyExists; a modify on a table
  that has no row at \<open>key\<close> fails with NotFound; an insert on a table that has no
  row at \<open>key\<close> succeeds and stores a new row there; a modify on a table that has a
  row at \<open>key\<close> succeeds; and after every successful call the row at \<open>key\<close> holds
  the incoming entry (the caller's entry, its match list sorted in place by the call).
\<close>

theorem ModifyTableEntry_existence_law:
  assumes "\<not> IsDefaultAction e"
    and "entryKey t (e\<lparr>Match := sortFieldMatches (Match e)\<rparr>) = Inr key"
  shows "(fmlookup (rows t) key \<noteq> None \<longrightarrow> ModifyTableEntry t e True = Inl AlreadyExists)
       \<and> (fmlookup (rows t) key = None \<longrightarrow> ModifyTableEntry t e False = Inl NotFound)
       \<and> (fmlookup (rows t) key = None \<longrightarrow>
            ModifyTableEntry t e True =
              Inr (t\<lparr>rows := fmupd key (newRow (e\<lparr>Match := sortFieldMatches (Match e)\<rparr>))
                                (rows t)\<rparr>))
       \<and> (fmlookup (rows t) key \<noteq> None \<longrightarrow> (\<exists>t'. ModifyTableEntry t e False = Inr t'))
       \<and> (\<forall>ins t'. ModifyTableEntry t e ins = Inr t' \<longrightarrow>
            (\<exists>row. fmlookup (rows t') key = Some row
                  \<and> entry row = e\<lparr>Match := sortFieldMatches (Match e)\<rparr>))"
  using assms
  by (auto simp: ModifyTableEntry_def Let_def newRow_def split: option.splits if_splits)

theorem ModifyTableEntry_existence_law_witness:
  "ModifyTableEntry ex_table ex_entry False = Inl NotFound
   \<and> ModifyTableEntry ex_table ex_entry True = Inr ex_table_1
   \<and> ModifyTableEntry ex_table_1 ex_entry True = Inl AlreadyExists
   \<and> (\<exists>t'. ModifyTableEntry ex_table_1 ex_entry False = Inr t')
   \<and> map_option entry (fmlookup (rows ex_table_1) ex_key) = Some ex_entry"
proof -
  have nd: "\<not> IsDefaultAction ex_entry"
    by (simp add: ex_entry_def)
  have srt: "ex_entry\<lparr>Match := sortFieldMatches (Match ex_entry)\<rparr> = ex_entry"
    by (simp add: ex_entry_def sortFieldMatches_def)
  have k1: "entryKey ex_table_1 (ex_entry\<lparr>Match := sortFieldMatches (Match ex_entry)\<rparr>)
              = Inr ex_key"
    using ex_entry_key by (simp add: ex_table_1_def)
  have absent: "fmlookup (rows ex_table) ex_key = None"
    by simp
  have present: "fmlookup (rows ex_table_1) ex_key \<noteq> None"
    by (simp add: ex_table_1_def)
  from ModifyTableEntry_existence_law [OF nd ex_entry_key] absent
  have a: "ModifyTableEntry ex_table ex_entry False = Inl NotFound"
    and b: "ModifyTableEntry ex_table ex_entry True = Inr ex_table_1"
    by (simp_all add: srt ex_table_1_def)
  from ModifyTableEntry_existence_law [OF nd k1] present
  have c: "ModifyTableEntry ex_table_1 ex_entry True = Inl AlreadyExists"
    and d: "\<exists>t'. ModifyTableEntry ex_table_1 ex_entry False = Inr t'"
    by simp_all
  from ModifyTableEntry_existence_law [OF nd ex_entry_key] b
  have "\<exists>row. fmlookup (rows ex_table_1) ex_key = Some row \<and> entry row = ex_entry"
    by (simp add: srt)
  then have e: "map_option entry (fmlookup (rows ex_table_1) ex_key) = Some ex_entry"
    by auto
  from a b c d e show ?thesis by simp
qed

text \<open>
  C2, as the code has it. For every successful insert of a non-default entry (no row at
  its key before), the created row's counter data is the counter data carried by the
  incoming entry when it carries one, and the zero value when it carries none; its meter
  config is the entry's, and its meter counter data is the entry's, absent when the entry
  has none.
\<close>

theorem insert_overlay_state:
  assumes "\<not> IsDefaultAction e"
    and "entryKey t (e\<lparr>Match := sortFieldMatches (Match e)\<rparr>) = Inr key"
    and "fmlookup (rows t) key = None"
  shows "\<exists>t' row. ModifyTableEntry t e True = Inr t'
           \<and> fmlookup (rows t') key = Some row
           \<and> counterData row =
               (case CounterData e of None \<Rightarrow> Some CounterData_zero | Some c \<Rightarrow> Some c)
           \<and> meterConfig row = MeterConfig e
           \<and> meterData row = MeterCounterData e
           \<and> entry row = e\<lparr>Match := sortFieldMatches (Match e)\<rparr>"
  using assms
  by (auto simp: ModifyTableEntry_def Let_def newRow_def split: option.splits)

lemma ex_entry_counted_key:
  "entryKey ex_table (ex_entry_counted\<lparr>Match := sortFieldMatches (Match ex_entry_counted)\<rparr>)
     = Inr ex_key"
  by (simp add: entryKey_eq ex_entry_counted_def ex_entry_def sortFieldMatches_def ex_key_def)

theorem insert_overlay_state_witness:
  "\<exists>t' row. ModifyTableEntry ex_table ex_entry_counted True = Inr t'
     \<and> fmlookup (rows t') ex_key = Some row
     \<and> counterData row = Some \<lparr>ByteCount = 500, PacketCount = 7\<rparr>
     \<and> meterConfig row = None
     \<and> meterData row = None
     \<and> entry row = ex_entry_counted"
proof -
  have nd: "\<not> IsDefaultAction ex_entry_counted"
    by (simp add: ex_entry_counted_def ex_entry_def)
  have absent: "fmlookup (rows ex_table) ex_key = None"
    by simp
  have srt: "ex_entry_counted\<lparr>Match := sortFieldMatches (Match ex_entry_counted)\<rparr>
               = ex_entry_counted"
    by (simp add: ex_entry_counted_def ex_entry_def sortFieldMatches_def)
  have flds: "CounterData ex_entry_counted = Some \<lparr>ByteCount = 500, PacketCount = 7\<rparr>"
    "MeterConfig ex_entry_counted = None" "MeterCounterData ex_entry_counted = None"
    by (simp_all add: ex_entry_counted_def ex_entry_def)
  from insert_overlay_state [OF nd ex_entry_counted_key absent]
  show ?thesis by (simp add: srt flds)
qed

text \<open>
  Against C2 as stated: the insert of an entry that carries the counter data (500, 7)
  into the empty example table stores (500, 7) in the new row, not the zero value.
\<close>

theorem insert_stores_counter_data:
  "ModifyTableEntry ex_table ex_entry_counted True =
     Inr (ex_table\<lparr>rows :=
            fmupd ex_key
              \<lparr>entry = ex_entry_counted,
               counterData = Some \<lparr>ByteCount = 500, PacketCount = 7\<rparr>,
               meterConfig = None, meterData = None\<rparr>
              fmempty\<rparr>)
   \<and> Some \<lparr>ByteCount = 500, PacketCount = 7\<rparr> \<noteq> Some CounterData_zero"
proof -
  have srt: "ex_entry_counted\<lparr>Match := sortFieldMatches (Match ex_entry_counted)\<rparr>
               = ex_entry_counted"
    by (simp add: ex_entry_counted_def ex_entry_def sortFieldMatches_def)
  have flds: "CounterData ex_entry_counted = Some \<lparr>ByteCount = 500, PacketCount = 7\<rparr>"
    "MeterConfig ex_entry_counted = None" "MeterCounterData ex_entry_counted = None"
    "\<not> IsDefaultAction ex_entry_counted"
    by (simp_all add: ex_entry_counted_def ex_entry_def)
  have k: "entryKey ex_table ex_entry_counted = Inr ex_key"
    using ex_entry_counted_key by (simp add: srt)
  show ?thesis
    by (simp add: ModifyTableEntry_def srt flds k newRow_def CounterData_zero_def)
qed

subsection \<open>Canonical order and the key\<close>

text \<open>A stable sort is determined by the multiset and the order within each key.\<close>

lemma sort_key_cong_stable:
  fixes f :: "'a \<Rightarrow> 'k::linorder"
  assumes "mset xs = mset ys"
    and "\<And>k. filter (\<lambda>x. f x = k) xs = filter (\<lambda>x. f x = k) ys"
  shows "sort_key f xs = sort_key f ys"
proof (rule properties_for_sort_key)
  show "mset (sort_key f ys) = mset xs"
    using assms(1) by simp
  show "sorted (map f (sort_key f ys))"
    by simp
  fix k
  have "filter (\<lambda>x. f k = f x) (sort_key f ys) = filter (\<lambda>x. f x = f k) (sort_key f ys)"
    by (simp add: eq_commute)
  also have "\<dots> = filter (\<lambda>x. f x = f k) ys"
    by (rule sort_key_stable)
  also have "\<dots> = filter (\<lambda>x. f x = f k) xs"
    using assms(2) by simp
  also have "\<dots> = filter (\<lambda>x. f k = f x) xs"
    by (simp add: eq_commute)
  finally show "filter (\<lambda>x. f k = f x) (sort_key f ys) = filter (\<lambda>x. f k = f x) xs" .
qed

lemma filter_key_short:
  "distinct (map f xs) \<Longrightarrow> length (filter (\<lambda>x. f x = k) xs) \<le> 1"
proof (induction xs)
  case Nil
  then show ?case by simp
next
  case (Cons a xs)
  show ?case
  proof (cases "f a = k")
    case True
    from Cons.prems have "f a \<notin> f ` set xs"
      by simp
    with True have "filter (\<lambda>x. f x = k) xs = []"
      unfolding filter_empty_conv by blast
    with True show ?thesis by simp
  next
    case False
    with Cons show ?thesis by simp
  qed
qed

lemma short_mset_eq:
  assumes "mset us = mset vs" and "length us \<le> 1"
  shows "us = vs"
proof -
  from assms(1) have "length us = length vs"
    by (rule mset_eq_length)
  with assms show ?thesis
    by (cases us; cases vs) auto
qed

lemma filter_key_distinct:
  assumes "mset xs = mset ys" and "distinct (map f xs)"
  shows "filter (\<lambda>x. f x = k) xs = filter (\<lambda>x. f x = k) ys"
proof -
  have "mset (filter (\<lambda>x. f x = k) xs) = mset (filter (\<lambda>x. f x = k) ys)"
    using assms(1) by simp
  moreover have "length (filter (\<lambda>x. f x = k) xs) \<le> 1"
    using assms(2) by (rule filter_key_short)
  ultimately show ?thesis
    by (rule short_mset_eq)
qed

text \<open>
  C3. For match lists with at most one match per field ID (a table entry has one match
  per match field): two lists that are permutations of each other have, once each is
  sorted by \<^const>\<open>sortFieldMatches\<close>, the same sorted list and the same result of
  \<^const>\<open>entryKey\<close>, which is one and the same byte key when the list is within the
  schema's field count. The key of an entry is a function of the table and of the entry's
  match list only: two entries with the same match list have the same key, whatever their
  priorities.
\<close>

theorem entryKey_canonical:
  "(mset xs = mset ys \<and> distinct (map FieldId xs)
      \<longrightarrow> sortFieldMatches xs = sortFieldMatches ys
        \<and> entryKey t (e\<lparr>Match := sortFieldMatches xs\<rparr>)
            = entryKey t (e\<lparr>Match := sortFieldMatches ys\<rparr>))
   \<and> (mset xs = mset ys \<and> distinct (map FieldId xs)
        \<and> length xs \<le> length (MatchFields (info t))
      \<longrightarrow> (\<exists>key. entryKey t (e\<lparr>Match := sortFieldMatches xs\<rparr>) = Inr key
                \<and> entryKey t (e\<lparr>Match := sortFieldMatches ys\<rparr>) = Inr key))
   \<and> (Match e1 = Match e2 \<longrightarrow> entryKey t e1 = entryKey t e2)
   \<and> entryKey t (e\<lparr>Priority := p\<rparr>) = entryKey t e"
proof -
  have srt: "sortFieldMatches xs = sortFieldMatches ys"
    if "mset xs = mset ys" and "distinct (map FieldId xs)"
    unfolding sortFieldMatches_def
    using that by (intro sort_key_cong_stable filter_key_distinct)
  have key: "\<exists>key. entryKey t (e\<lparr>Match := sortFieldMatches xs\<rparr>) = Inr key
                \<and> entryKey t (e\<lparr>Match := sortFieldMatches ys\<rparr>) = Inr key"
    if "mset xs = mset ys" and "distinct (map FieldId xs)"
      and "length xs \<le> length (MatchFields (info t))"
  proof -
    have "length (sortFieldMatches xs) \<le> length (MatchFields (info t))"
      using that(3) by (simp add: sortFieldMatches_def)
    then show ?thesis
      using srt [OF that(1,2)] by (simp add: entryKey_eq)
  qed
  have same: "entryKey t e1 = entryKey t e2" if "Match e1 = Match e2"
    using that by (simp add: entryKey_eq)
  have prio: "entryKey t (e\<lparr>Priority := p\<rparr>) = entryKey t e"
    by (simp add: entryKey_eq)
  from srt key same prio show ?thesis
    by (simp add: entryKey_eq)
qed

theorem entryKey_canonical_witness:
  "mset ex_pair_a = mset ex_pair_b
   \<and> distinct (map FieldId ex_pair_a)
   \<and> length ex_pair_a \<le> length (MatchFields (info ex_table))
   \<and> ex_pair_a \<noteq> ex_pair_b
   \<and> sortFieldMatches ex_pair_a = sortFieldMatches ex_pair_b
   \<and> (\<exists>key. entryKey ex_table (ex_entry\<lparr>Match := sortFieldMatches ex_pair_a\<rparr>) = Inr key
          \<and> entryKey ex_table (ex_entry\<lparr>Match := sortFieldMatches ex_pair_b\<rparr>) = Inr key)
   \<and> Match (ex_entry\<lparr>Priority := 10\<rparr>) = Match ex_entry
   \<and> ex_entry\<lparr>Priority := 10\<rparr> \<noteq> ex_entry
   \<and> entryKey ex_table (ex_entry\<lparr>Priority := 10\<rparr>) = entryKey ex_table ex_entry"
proof -
  have m: "mset ex_pair_a = mset ex_pair_b"
    by (simp add: ex_pair_a_def ex_pair_b_def)
  have d: "distinct (map FieldId ex_pair_a)"
    by (simp add: ex_pair_a_def)
  have l: "length ex_pair_a \<le> length (MatchFields (info ex_table))"
    by (simp add: ex_pair_a_def)
  have n: "ex_pair_a \<noteq> ex_pair_b"
    by (simp add: ex_pair_a_def ex_pair_b_def ex_exact_def)
  have p: "Match (ex_entry\<lparr>Priority := 10\<rparr>) = Match ex_entry"
    by simp
  have q: "ex_entry\<lparr>Priority := 10\<rparr> \<noteq> ex_entry"
  proof
    assume "ex_entry\<lparr>Priority := 10\<rparr> = ex_entry"
    then have "Priority (ex_entry\<lparr>Priority := 10\<rparr>) = Priority ex_entry"
      by simp
    then show False
      by (simp add: ex_entry_def)
  qed
  from entryKey_canonical
         [of ex_pair_a ex_pair_b ex_table ex_entry "ex_entry\<lparr>Priority := 10\<rparr>" ex_entry 10]
       m d l n p q
  show ?thesis by blast
qed

subsection \<open>SHA-1 on given messages\<close>

lemma sha1_expand_numeral:
  "sha1_expand (numeral n) t ws =
     sha1_expand (pred_numeral n) (t + 1)
       (ws @ [rotl32 1 (ws ! (t - 3) XOR ws ! (t - 8) XOR ws ! (t - 14) XOR ws ! (t - 16))])"
  by (simp add: numeral_eq_Suc)

lemma sha1_blocks_numeral:
  "sha1_blocks (numeral n) h bs =
     sha1_blocks (pred_numeral n) (sha1_block h (take 64 bs)) (drop 64 bs)"
  by (simp add: numeral_eq_Suc)

lemma replicate_numeral_Cons: "replicate (numeral n) x = x # replicate (pred_numeral n) x"
  by (simp add: numeral_eq_Suc)

lemmas sha1_eval =
  sha1_def sha1_pad_def putUint64_def putUint32_def sha1_block_def sha1_init_def
  sha1_expand_numeral sha1_blocks_numeral be32_def add32_def rotl32_def not32_def
  sha1_f_def sha1_k_def replicate_numeral_Cons

text \<open>The digest of the message \<open>abc\<close>, and the key of the example entry.\<close>

lemma sha1_abc:
  "sha1 [0x61, 0x62, 0x63] =
     [169, 153, 62, 54, 71, 6, 129, 106, 186, 62, 37, 113, 120, 80, 194, 108, 156, 208, 216,
      157]"
  by (simp add: sha1_eval)

lemma ex_key_bytes:
  "ex_key =
     [140, 55, 126, 192, 12, 232, 38, 94, 47, 179, 104, 156, 9, 142, 89, 79, 155, 42, 44, 154]"
  by (simp add: ex_key_def sha1_eval)

subsection \<open>Field matches without a payload\<close>

lemma hashMatch_no_payload:
  assumes "GetExact p = None" and "GetLpm p = None" and "GetRange p = None"
    and "GetTernary p = None" and "GetOptional p = None"
  shows "hashMatch hf p = hf"
  using assms by (simp add: hashMatch_def)

lemma concat_hashMatch_filter:
  "concat (map (hashMatch []) (filter (\<lambda>m. hashMatch [] m \<noteq> []) ms))
     = concat (map (hashMatch []) ms)"
  by (induction ms) simp_all

lemma concat_hashMatch_sort_insert:
  assumes "hashMatch [] p = []"
  shows "concat (map (hashMatch []) (sort_key f (take i M @ [p] @ drop i M)))
           = concat (map (hashMatch []) (sort_key f M))"
proof -
  let ?P = "\<lambda>m. hashMatch [] m \<noteq> []"
  have "filter ?P (take i M @ [p] @ drop i M) = filter ?P (take i M) @ filter ?P (drop i M)"
    using assms by simp
  also have "\<dots> = filter ?P (take i M @ drop i M)"
    by (simp only: filter_append)
  also have "\<dots> = filter ?P M"
    by (simp only: append_take_drop_id)
  finally have flt: "filter ?P (take i M @ [p] @ drop i M) = filter ?P M" .
  have "concat (map (hashMatch []) (sort_key f (take i M @ [p] @ drop i M)))
          = concat (map (hashMatch []) (filter ?P (sort_key f (take i M @ [p] @ drop i M))))"
    by (simp only: concat_hashMatch_filter)
  also have "\<dots> = concat (map (hashMatch []) (sort_key f (filter ?P (take i M @ [p] @ drop i M))))"
    by (simp only: filter_sort)
  also have "\<dots> = concat (map (hashMatch []) (sort_key f (filter ?P M)))"
    by (simp only: flt)
  also have "\<dots> = concat (map (hashMatch []) (filter ?P (sort_key f M)))"
    by (simp only: filter_sort)
  also have "\<dots> = concat (map (hashMatch []) (sort_key f M))"
    by (simp only: concat_hashMatch_filter)
  finally show ?thesis .
qed

text \<open>
  C4. Let \<open>p\<close> be a field match for which none of the five getters returns a payload,
  and let \<open>M\<close> be a match list that is still within the schema's field count with one
  more match. Then \<open>M\<close> with \<open>p\<close> inserted at any position has a key, the same key as
  \<open>M\<close>, and the same holds after both lists are sorted into canonical order. Hence,
  for a non-default entry \<open>e\<close> with match list \<open>M\<close> and any entry \<open>e'\<close> that has the
  extended list: once \<open>e\<close> is inserted, an insert of \<open>e'\<close> fails with AlreadyExists
  and a modify with \<open>e'\<close> succeeds and replaces the entry of the row of \<open>e\<close>, adding
  no row.
\<close>

theorem payloadless_match_ignored:
  assumes "GetExact p = None" and "GetLpm p = None" and "GetRange p = None"
    and "GetTernary p = None" and "GetOptional p = None"
    and "length M + 1 \<le> length (MatchFields (info t))"
  shows "(\<exists>key. entryKey t (e\<lparr>Match := M\<rparr>) = Inr key
              \<and> entryKey t (e\<lparr>Match := take i M @ [p] @ drop i M\<rparr>) = Inr key)
       \<and> (\<exists>key. entryKey t (e\<lparr>Match := sortFieldMatches M\<rparr>) = Inr key
              \<and> entryKey t (e\<lparr>Match := sortFieldMatches (take i M @ [p] @ drop i M)\<rparr>) = Inr key)
       \<and> (\<forall>e' t1. \<not> IsDefaultAction e \<and> \<not> IsDefaultAction e' \<and> Match e = M
              \<and> Match e' = take i M @ [p] @ drop i M
              \<and> ModifyTableEntry t e True = Inr t1
            \<longrightarrow> e' \<noteq> e
              \<and> ModifyTableEntry t1 e' True = Inl AlreadyExists
              \<and> (\<exists>key t2 row. entryKey t (e\<lparr>Match := sortFieldMatches M\<rparr>) = Inr key
                    \<and> ModifyTableEntry t1 e' False = Inr t2
                    \<and> fmdom (rows t2) = fmdom (rows t1)
                    \<and> map_option entry (fmlookup (rows t1) key)
                        = Some (e\<lparr>Match := sortFieldMatches M\<rparr>)
                    \<and> map_option entry (fmlookup (rows t2) key)
                        = Some (e'\<lparr>Match := sortFieldMatches (Match e')\<rparr>)))"
proof -
  have np: "hashMatch [] p = []"
    using assms(1-5) by (rule hashMatch_no_payload)
  have len: "length (take i M @ [p] @ drop i M) = length M + 1"
    by simp
  have cat: "concat (map (hashMatch []) (take i M @ [p] @ drop i M))
               = concat (map (hashMatch []) M)"
  proof -
    have "concat (map (hashMatch []) (take i M @ [p] @ drop i M))
            = concat (map (hashMatch []) (take i M)) @ concat (map (hashMatch []) (drop i M))"
      using np by simp
    also have "\<dots> = concat (map (hashMatch []) (take i M @ drop i M))"
      by (simp only: map_append concat_append)
    also have "\<dots> = concat (map (hashMatch []) M)"
      by (simp only: append_take_drop_id)
    finally show ?thesis .
  qed
  have plain: "entryKey t (e\<lparr>Match := take i M @ [p] @ drop i M\<rparr>) = entryKey t (e\<lparr>Match := M\<rparr>)"
    for e :: p4api_TableEntry
  proof -
    have "entryKey t (e\<lparr>Match := take i M @ [p] @ drop i M\<rparr>)
            = (if length (take i M @ [p] @ drop i M) \<le> length (MatchFields (info t))
               then Inr (sha1 (concat (map (hashMatch []) (take i M @ [p] @ drop i M))))
               else Inl Invalid)"
      by (simp add: entryKey_eq)
    also have "\<dots> = Inr (sha1 (concat (map (hashMatch []) M)))"
      using assms(6) by (simp only: len cat) simp
    also have "\<dots> = entryKey t (e\<lparr>Match := M\<rparr>)"
      using assms(6) by (simp add: entryKey_eq)
    finally show ?thesis .
  qed
  have sorted_eq: "entryKey t (e\<lparr>Match := sortFieldMatches (take i M @ [p] @ drop i M)\<rparr>)
                     = entryKey t (e\<lparr>Match := sortFieldMatches M\<rparr>)"
    for e :: p4api_TableEntry
    using assms(6) concat_hashMatch_sort_insert [OF np, of FieldId i M]
    by (simp add: entryKey_eq sortFieldMatches_def)
  have ex: "\<exists>key. entryKey t (e\<lparr>Match := sortFieldMatches M\<rparr>) = Inr key"
    "\<exists>key. entryKey t (e\<lparr>Match := M\<rparr>) = Inr key"
    using assms(6) by (simp_all add: entryKey_eq sortFieldMatches_def)
  have third: "e' \<noteq> e
              \<and> ModifyTableEntry t1 e' True = Inl AlreadyExists
              \<and> (\<exists>key t2 row. entryKey t (e\<lparr>Match := sortFieldMatches M\<rparr>) = Inr key
                    \<and> ModifyTableEntry t1 e' False = Inr t2
                    \<and> fmdom (rows t2) = fmdom (rows t1)
                    \<and> map_option entry (fmlookup (rows t1) key)
                        = Some (e\<lparr>Match := sortFieldMatches M\<rparr>)
                    \<and> map_option entry (fmlookup (rows t2) key)
                        = Some (e'\<lparr>Match := sortFieldMatches (Match e')\<rparr>))"
    if h: "\<not> IsDefaultAction e" "\<not> IsDefaultAction e'" "Match e = M"
      "Match e' = take i M @ [p] @ drop i M" "ModifyTableEntry t e True = Inr t1"
    for e' t1
  proof -
    from ex(1) obtain key where k: "entryKey t (e\<lparr>Match := sortFieldMatches M\<rparr>) = Inr key"
      by blast
    have k': "entryKey t (e'\<lparr>Match := sortFieldMatches (Match e')\<rparr>) = Inr key"
    proof -
      have "entryKey t (e'\<lparr>Match := sortFieldMatches (Match e')\<rparr>)
              = entryKey t (e\<lparr>Match := sortFieldMatches (take i M @ [p] @ drop i M)\<rparr>)"
        by (simp add: entryKey_eq h(4))
      then show ?thesis
        using sorted_eq [of e] k by simp
    qed
    have ne: "e' \<noteq> e"
    proof
      assume "e' = e"
      then have "length (Match e') = length (Match e)" by simp
      then show False by (simp add: h(3,4))
    qed
    from h(1,3,5) k have t1: "t1 = t\<lparr>rows := fmupd key (newRow (e\<lparr>Match := sortFieldMatches M\<rparr>)) (rows t)\<rparr>"
      by (auto simp: ModifyTableEntry_def Let_def newRow_def split: option.splits if_splits)
    have look: "fmlookup (rows t1) key = Some (newRow (e\<lparr>Match := sortFieldMatches M\<rparr>))"
      by (simp add: t1)
    have k1: "entryKey t1 (e'\<lparr>Match := sortFieldMatches (Match e')\<rparr>) = Inr key"
      using k' by (simp add: t1)
    have a: "ModifyTableEntry t1 e' True = Inl AlreadyExists"
      using h(2) k1 look by (simp add: ModifyTableEntry_def)
    have "\<exists>t2. ModifyTableEntry t1 e' False = Inr t2
            \<and> fmdom (rows t2) = fmdom (rows t1)
            \<and> map_option entry (fmlookup (rows t2) key)
                = Some (e'\<lparr>Match := sortFieldMatches (Match e')\<rparr>)"
      using h(2) k1 look
      by (auto simp: ModifyTableEntry_def Let_def t1)
    with ne a k look show ?thesis
      by auto
  qed
  show ?thesis
    using ex plain sorted_eq third by (intro conjI allI impI) auto
qed

lemma ex_insert: "ModifyTableEntry ex_table ex_entry True = Inr ex_table_1"
proof -
  have srt: "ex_entry\<lparr>Match := sortFieldMatches (Match ex_entry)\<rparr> = ex_entry"
    by (simp add: ex_entry_def sortFieldMatches_def)
  have k: "entryKey ex_table ex_entry = Inr ex_key"
    using ex_entry_key by (simp add: srt)
  have nd: "\<not> IsDefaultAction ex_entry"
    by (simp add: ex_entry_def)
  show ?thesis
    by (simp add: ModifyTableEntry_def srt k nd ex_table_1_def newRow_def Let_def)
qed

theorem payloadless_match_ignored_witness:
  "entryKey ex_table (ex_entry\<lparr>Match := Match ex_entry_padded\<rparr>) = Inr ex_key
   \<and> entryKey ex_table ex_entry = Inr ex_key
   \<and> ex_entry_padded \<noteq> ex_entry
   \<and> ModifyTableEntry ex_table ex_entry True = Inr ex_table_1
   \<and> ModifyTableEntry ex_table_1 ex_entry_padded True = Inl AlreadyExists
   \<and> (\<exists>t2. ModifyTableEntry ex_table_1 ex_entry_padded False = Inr t2
          \<and> fmdom (rows t2) = fmdom (rows ex_table_1)
          \<and> map_option entry (fmlookup (rows ex_table_1) ex_key) = Some ex_entry
          \<and> map_option entry (fmlookup (rows t2) ex_key) = Some ex_entry_padded)"
proof -
  let ?M = "Match ex_entry"
  have g: "GetExact ex_unset = None" "GetLpm ex_unset = None" "GetRange ex_unset = None"
    "GetTernary ex_unset = None" "GetOptional ex_unset = None"
    by (simp_all add: ex_unset_def GetExact_def GetLpm_def GetRange_def GetTernary_def
          GetOptional_def)
  have len: "length ?M + 1 \<le> length (MatchFields (info ex_table))"
    by (simp add: ex_entry_def)
  have srt: "ex_entry\<lparr>Match := sortFieldMatches ?M\<rparr> = ex_entry"
    "ex_entry\<lparr>Match := ?M\<rparr> = ex_entry"
    by (simp_all add: ex_entry_def sortFieldMatches_def)
  have pad: "Match ex_entry_padded = take 1 ?M @ [ex_unset] @ drop 1 ?M"
    by (simp add: ex_entry_padded_def)
  have srt': "ex_entry_padded\<lparr>Match := sortFieldMatches (Match ex_entry_padded)\<rparr>
                = ex_entry_padded"
    by (simp add: ex_entry_padded_def ex_entry_def ex_unset_def sortFieldMatches_def
          word_le_nat_alt)
  have nd: "\<not> IsDefaultAction ex_entry" "\<not> IsDefaultAction ex_entry_padded"
    by (simp_all add: ex_entry_padded_def ex_entry_def)
  have k: "entryKey ex_table ex_entry = Inr ex_key"
    using ex_entry_key by (simp add: srt)
  note inst = payloadless_match_ignored [OF g len, of ex_entry 1]
  from inst have first: "entryKey ex_table (ex_entry\<lparr>Match := Match ex_entry_padded\<rparr>) = Inr ex_key"
    using k by (auto simp: srt pad)
  from inst have "\<forall>e' t1. \<not> IsDefaultAction ex_entry \<and> \<not> IsDefaultAction e' \<and> Match ex_entry = ?M
              \<and> Match e' = take 1 ?M @ [ex_unset] @ drop 1 ?M
              \<and> ModifyTableEntry ex_table ex_entry True = Inr t1
            \<longrightarrow> e' \<noteq> ex_entry
              \<and> ModifyTableEntry t1 e' True = Inl AlreadyExists
              \<and> (\<exists>key t2 row. entryKey ex_table (ex_entry\<lparr>Match := sortFieldMatches ?M\<rparr>) = Inr key
                    \<and> ModifyTableEntry t1 e' False = Inr t2
                    \<and> fmdom (rows t2) = fmdom (rows t1)
                    \<and> map_option entry (fmlookup (rows t1) key)
                        = Some (ex_entry\<lparr>Match := sortFieldMatches ?M\<rparr>)
                    \<and> map_option entry (fmlookup (rows t2) key)
                        = Some (e'\<lparr>Match := sortFieldMatches (Match e')\<rparr>))"
    by blast
  then have "ex_entry_padded \<noteq> ex_entry
              \<and> ModifyTableEntry ex_table_1 ex_entry_padded True = Inl AlreadyExists
              \<and> (\<exists>key t2 row. entryKey ex_table (ex_entry\<lparr>Match := sortFieldMatches ?M\<rparr>) = Inr key
                    \<and> ModifyTableEntry ex_table_1 ex_entry_padded False = Inr t2
                    \<and> fmdom (rows t2) = fmdom (rows ex_table_1)
                    \<and> map_option entry (fmlookup (rows ex_table_1) key)
                        = Some (ex_entry\<lparr>Match := sortFieldMatches ?M\<rparr>)
                    \<and> map_option entry (fmlookup (rows t2) key)
                        = Some (ex_entry_padded\<lparr>Match := sortFieldMatches (Match ex_entry_padded)\<rparr>))"
    using nd pad ex_insert by blast
  then have rest: "ex_entry_padded \<noteq> ex_entry
              \<and> ModifyTableEntry ex_table_1 ex_entry_padded True = Inl AlreadyExists
              \<and> (\<exists>t2. ModifyTableEntry ex_table_1 ex_entry_padded False = Inr t2
                    \<and> fmdom (rows t2) = fmdom (rows ex_table_1)
                    \<and> map_option entry (fmlookup (rows ex_table_1) ex_key) = Some ex_entry
                    \<and> map_option entry (fmlookup (rows t2) ex_key) = Some ex_entry_padded)"
    unfolding srt srt' k by auto
  from first k rest ex_insert show ?thesis
    by simp
qed

subsection \<open>The prefix length of an LPM match\<close>

lemma writeHash_bytes:
  "writeHash hf n = hf @ [0, ucast (drop_bit 16 n), ucast (drop_bit 8 n), ucast n]"
proof -
  have m1: "(0xff0000 :: 32 word) = push_bit 16 (mask 8)"
    and m2: "(0xff00 :: 32 word) = push_bit 8 (mask 8)"
    and m3: "(0xff :: 32 word) = mask 8"
    by (simp_all add: mask_eq_exp_minus_1)
  have b0: "(ucast (signed_drop_bit 24 (n AND 0xff0000)) :: byte) = 0"
    unfolding m1 by (rule bit_word_eqI) (auto simp: bit_simps)
  have b1: "(ucast (signed_drop_bit 16 (n AND 0xff0000)) :: byte) = ucast (drop_bit 16 n)"
    unfolding m1 by (rule bit_word_eqI) (auto simp: bit_simps)
  have b2: "(ucast (signed_drop_bit 8 (n AND 0xff00)) :: byte) = ucast (drop_bit 8 n)"
    unfolding m2 by (rule bit_word_eqI) (auto simp: bit_simps)
  have b3: "(ucast (n AND 0xff) :: byte) = ucast n"
    unfolding m3 by (rule bit_word_eqI) (auto simp: bit_simps)
  show ?thesis
    by (simp only: writeHash_def hash_Write_def b0 b1 b2 b3)
qed

lemma hashMatch_lpm:
  "hashMatch hf \<lparr>FieldId = i, FieldMatchType = Some (FieldMatch_Lpm v n)\<rparr>
     = hf @ [0x02] @ [0, ucast (drop_bit 16 n), ucast (drop_bit 8 n), ucast n] @ v"
  by (simp add: hashMatch_def GetExact_def GetLpm_def writeHash_bytes hash_Write_def)

text \<open>
  C5 at the prefix lengths 16777216 and 0. The bytes fed to the hash for an LPM match are
  the tag 2, four bytes for the prefix length and the value bytes; the first of the four
  bytes is 0 for both prefix lengths, so both matches feed the same bytes, where the
  big-endian representation of 16777216 starts with 1.
\<close>

theorem writeHash_drops_high_byte:
  "hashMatch sha1_New (ex_lpm 0x01000000) = [0x02, 0, 0, 0, 0, 10, 0, 0, 0]
   \<and> hashMatch sha1_New (ex_lpm 0) = [0x02, 0, 0, 0, 0, 10, 0, 0, 0]
   \<and> spec_bigEndianInt32 0x01000000 = [1, 0, 0, 0]
   \<and> spec_bigEndianInt32 0 = [0, 0, 0, 0]"
  by (simp add: hashMatch_def GetExact_def GetLpm_def writeHash_def hash_Write_def sha1_New_def
        ex_lpm_def spec_bigEndianInt32_def)

subsection \<open>The default action\<close>

lemma ModifyTableEntry_default:
  assumes "IsDefaultAction e" and "Match e = []"
  shows "ModifyTableEntry t e False = Inr (t\<lparr>defaultRow := Some (newRow e)\<rparr>)"
  using assms by (simp add: ModifyTableEntry_def)

lemma ModifyTableEntries_default:
  assumes "es \<noteq> []" and "\<forall>x\<in>set es. IsDefaultAction x \<and> Match x = []"
  shows "ModifyTableEntries t es False = Inr (t\<lparr>defaultRow := Some (newRow (last es))\<rparr>)"
  using assms
proof (induction es arbitrary: t)
  case Nil
  then show ?case by simp
next
  case (Cons e es)
  from Cons.prems have step: "ModifyTableEntry t e False = Inr (t\<lparr>defaultRow := Some (newRow e)\<rparr>)"
    by (simp add: ModifyTableEntry_default)
  show ?case
  proof (cases "es = []")
    case True
    with step show ?thesis by simp
  next
    case False
    with Cons.prems have "ModifyTableEntries (t\<lparr>defaultRow := Some (newRow e)\<rparr>) es False
        = Inr (t\<lparr>defaultRow := Some (newRow e)\<rparr>\<lparr>defaultRow := Some (newRow (last es))\<rparr>)"
      by (intro Cons.IH) simp_all
    with step False show ?thesis by simp
  qed
qed

lemma newRow_eq:
  "newRow e =
     \<lparr>entry = e,
      counterData = (case CounterData e of None \<Rightarrow> Some CounterData_zero | Some c \<Rightarrow> Some c),
      meterConfig = MeterConfig e,
      meterData = MeterCounterData e\<rparr>"
  by (simp add: newRow_def Let_def split: option.splits)

text \<open>
  C6. For an entry with the default-action flag set, \<^const>\<open>ModifyTableEntry\<close> fails
  with Invalid when called as an insert, fails with Invalid when the entry has match
  fields, and otherwise succeeds with the table in which only the default row has
  changed. The new default row is built from the entry alone, whatever the default row
  and its overlays were: its entry is the incoming entry, its counter data is the
  entry's counter data, or the zero value when the entry has none, its meter config is
  the entry's and its meter counter data is the entry's. After one, and after any number
  of such modifies in a row, the default row is the row built from the last entry and
  \<^const>\<open>Size\<close> is the number of non-default rows plus one.
\<close>

theorem default_action_contract:
  "(IsDefaultAction e \<longrightarrow> ModifyTableEntry t e True = Inl Invalid)
   \<and> (IsDefaultAction e \<and> Match e \<noteq> [] \<longrightarrow> ModifyTableEntry t e ins = Inl Invalid)
   \<and> (IsDefaultAction e \<and> Match e = [] \<longrightarrow>
        (\<exists>t'. ModifyTableEntry t e False = Inr t'
           \<and> defaultRow t' =
               Some \<lparr>entry = e,
                     counterData = (case CounterData e of
                                      None \<Rightarrow> Some CounterData_zero | Some c \<Rightarrow> Some c),
                     meterConfig = MeterConfig e,
                     meterData = MeterCounterData e\<rparr>
           \<and> rows t' = rows t \<and> info t' = info t
           \<and> Size t' = fcard (fmdom (rows t)) + 1))
   \<and> (es \<noteq> [] \<and> (\<forall>x\<in>set es. IsDefaultAction x \<and> Match x = []) \<longrightarrow>
        (\<exists>t'. ModifyTableEntries t es False = Inr t'
           \<and> defaultRow t' =
               Some \<lparr>entry = last es,
                     counterData = (case CounterData (last es) of
                                      None \<Rightarrow> Some CounterData_zero | Some c \<Rightarrow> Some c),
                     meterConfig = MeterConfig (last es),
                     meterData = MeterCounterData (last es)\<rparr>
           \<and> rows t' = rows t \<and> info t' = info t
           \<and> Size t' = fcard (fmdom (rows t)) + 1))"
proof -
  have a: "ModifyTableEntry t e True = Inl Invalid" if "IsDefaultAction e"
    using that by (simp add: ModifyTableEntry_def)
  have b: "ModifyTableEntry t e ins = Inl Invalid" if "IsDefaultAction e" and "Match e \<noteq> []"
    using that by (simp add: ModifyTableEntry_def)
  have c: "\<exists>t'. ModifyTableEntry t e False = Inr t'
           \<and> defaultRow t' =
               Some \<lparr>entry = e,
                     counterData = (case CounterData e of
                                      None \<Rightarrow> Some CounterData_zero | Some c \<Rightarrow> Some c),
                     meterConfig = MeterConfig e,
                     meterData = MeterCounterData e\<rparr>
           \<and> rows t' = rows t \<and> info t' = info t
           \<and> Size t' = fcard (fmdom (rows t)) + 1"
    if "IsDefaultAction e" and "Match e = []"
    using ModifyTableEntry_default [OF that, of t]
    by (simp add: Size_def newRow_eq [symmetric])
  have d: "\<exists>t'. ModifyTableEntries t es False = Inr t'
           \<and> defaultRow t' =
               Some \<lparr>entry = last es,
                     counterData = (case CounterData (last es) of
                                      None \<Rightarrow> Some CounterData_zero | Some c \<Rightarrow> Some c),
                     meterConfig = MeterConfig (last es),
                     meterData = MeterCounterData (last es)\<rparr>
           \<and> rows t' = rows t \<and> info t' = info t
           \<and> Size t' = fcard (fmdom (rows t)) + 1"
    if "es \<noteq> []" and "\<forall>x\<in>set es. IsDefaultAction x \<and> Match x = []"
    using ModifyTableEntries_default [OF that, of t]
    by (simp add: Size_def newRow_eq [symmetric])
  from a b c d show ?thesis
    by blast
qed

theorem default_action_contract_witness:
  "ModifyTableEntry ex_table_d ex_default True = Inl Invalid
   \<and> ModifyTableEntry ex_table_d ex_default_bad False = Inl Invalid
   \<and> counterData (the (defaultRow ex_table_d)) = Some \<lparr>ByteCount = 900, PacketCount = 9\<rparr>
   \<and> Size ex_table_d = 2
   \<and> (\<exists>t'. ModifyTableEntry ex_table_d ex_default False = Inr t'
          \<and> defaultRow t' =
              Some \<lparr>entry = ex_default, counterData = Some \<lparr>ByteCount = 0, PacketCount = 0\<rparr>,
                    meterConfig = None, meterData = None\<rparr>
          \<and> rows t' = rows ex_table_d \<and> Size t' = 2)
   \<and> (\<exists>t'. ModifyTableEntry ex_table_d ex_default_2 False = Inr t'
          \<and> defaultRow t' =
              Some \<lparr>entry = ex_default_2,
                    counterData = Some \<lparr>ByteCount = 11, PacketCount = 2\<rparr>,
                    meterConfig = Some \<lparr>Cir = 1, Cburst = 2, Pir = 3, Pburst = 4\<rparr>,
                    meterData = None\<rparr>
          \<and> rows t' = rows ex_table_d \<and> Size t' = 2)
   \<and> (\<exists>t'. ModifyTableEntries ex_table_d ex_defaults False = Inr t'
          \<and> defaultRow t' =
              Some \<lparr>entry = ex_default, counterData = Some \<lparr>ByteCount = 0, PacketCount = 0\<rparr>,
                    meterConfig = None, meterData = None\<rparr>
          \<and> rows t' = rows ex_table_d \<and> Size t' = 2)"
proof -
  have d: "IsDefaultAction ex_default" "IsDefaultAction ex_default_bad"
    "IsDefaultAction ex_default_2"
    "Match ex_default = []" "Match ex_default_2 = []" "Match ex_default_bad \<noteq> []"
    by (simp_all add: ex_default_def ex_default_2_def ex_default_bad_def)
  have f: "CounterData ex_default = None" "MeterConfig ex_default = None"
    "MeterCounterData ex_default = None"
    "CounterData ex_default_2 = Some \<lparr>ByteCount = 11, PacketCount = 2\<rparr>"
    "MeterConfig ex_default_2 = Some \<lparr>Cir = 1, Cburst = 2, Pir = 3, Pburst = 4\<rparr>"
    "MeterCounterData ex_default_2 = None"
    by (simp_all add: ex_default_def ex_default_2_def)
  have l: "ex_defaults \<noteq> [] \<and> (\<forall>x\<in>set ex_defaults. IsDefaultAction x \<and> Match x = [])"
    "last ex_defaults = ex_default"
    by (simp_all add: ex_defaults_def ex_default_def ex_default_2_def)
  have c: "fcard (fmdom (rows ex_table_d)) = 1"
    by (simp add: ex_table_d_def ex_table_1_def fcard_finsert_if fcard_fempty)
  have dr: "defaultRow ex_table_d \<noteq> None"
    "counterData (the (defaultRow ex_table_d)) = Some \<lparr>ByteCount = 900, PacketCount = 9\<rparr>"
    by (simp_all add: ex_table_d_def)
  have s1: "Size ex_table_d = 2"
    using dr(1) by (simp add: Size_def c)
  from default_action_contract [of ex_default ex_table_d False ex_defaults] d l
  have p1: "ModifyTableEntry ex_table_d ex_default True = Inl Invalid"
    and p2: "\<exists>t'. ModifyTableEntry ex_table_d ex_default False = Inr t'
          \<and> defaultRow t' =
              Some \<lparr>entry = ex_default, counterData = Some \<lparr>ByteCount = 0, PacketCount = 0\<rparr>,
                    meterConfig = None, meterData = None\<rparr>
          \<and> rows t' = rows ex_table_d \<and> Size t' = 2"
    and p3: "\<exists>t'. ModifyTableEntries ex_table_d ex_defaults False = Inr t'
          \<and> defaultRow t' =
              Some \<lparr>entry = ex_default, counterData = Some \<lparr>ByteCount = 0, PacketCount = 0\<rparr>,
                    meterConfig = None, meterData = None\<rparr>
          \<and> rows t' = rows ex_table_d \<and> Size t' = 2"
    by (auto simp: f c CounterData_zero_def)
  from default_action_contract [of ex_default_bad ex_table_d False ex_defaults] d
  have p4: "ModifyTableEntry ex_table_d ex_default_bad False = Inl Invalid"
    by simp
  from default_action_contract [of ex_default_2 ex_table_d False ex_defaults] d
  have p5: "\<exists>t'. ModifyTableEntry ex_table_d ex_default_2 False = Inr t'
          \<and> defaultRow t' =
              Some \<lparr>entry = ex_default_2,
                    counterData = Some \<lparr>ByteCount = 11, PacketCount = 2\<rparr>,
                    meterConfig = Some \<lparr>Cir = 1, Cburst = 2, Pir = 3, Pburst = 4\<rparr>,
                    meterData = None\<rparr>
          \<and> rows t' = rows ex_table_d \<and> Size t' = 2"
    by (auto simp: f c)
  from p1 p2 p3 p4 p5 dr(2) s1 show ?thesis
    by blast
qed

subsection \<open>Remove\<close>

lemma validateMatch_all:
  "(\<forall>i<length ms. validateMatch t i (ms ! i) = None)
     \<longleftrightarrow> length ms \<le> length (MatchFields (info t))"
proof
  assume v: "\<forall>i<length ms. validateMatch t i (ms ! i) = None"
  show "length ms \<le> length (MatchFields (info t))"
  proof (rule ccontr)
    assume "\<not> length ms \<le> length (MatchFields (info t))"
    then have "length (MatchFields (info t)) < length ms" by simp
    with v have "validateMatch t (length (MatchFields (info t)))
                   (ms ! length (MatchFields (info t))) = None"
      by blast
    then show False by (simp add: validateMatch_def)
  qed
next
  assume "length ms \<le> length (MatchFields (info t))"
  then show "\<forall>i<length ms. validateMatch t i (ms ! i) = None"
    by (simp add: validateMatch_def)
qed

text \<open>
  C7. An entry with the default-action flag set is rejected with Invalid. For a
  non-default entry whose sorted match list passes \<^const>\<open>validateMatch\<close> at every
  index, \<^const>\<open>RemoveTableEntry\<close> succeeds whether or not there is a row at the key:
  the result is the table without that key. When a row was there, the number of rows and
  \<^const>\<open>Size\<close> go down by exactly one and the key has no row afterwards; when none
  was there, the table is unchanged (where a modify fails with NotFound). Removing again
  from the result gives the same result.
\<close>

theorem RemoveTableEntry_idempotent:
  "(IsDefaultAction e \<longrightarrow> RemoveTableEntry t e = Inl Invalid)
   \<and> (\<not> IsDefaultAction e
       \<and> (\<forall>i<length (Match e). validateMatch t i (sortFieldMatches (Match e) ! i) = None)
      \<longrightarrow> (\<exists>key. entryKey t (e\<lparr>Match := sortFieldMatches (Match e)\<rparr>) = Inr key
             \<and> RemoveTableEntry t e = Inr (t\<lparr>rows := fmdrop key (rows t)\<rparr>)
             \<and> RemoveTableEntry (t\<lparr>rows := fmdrop key (rows t)\<rparr>) e
                 = Inr (t\<lparr>rows := fmdrop key (rows t)\<rparr>)
             \<and> fmlookup (fmdrop key (rows t)) key = None
             \<and> (fmlookup (rows t) key \<noteq> None \<longrightarrow>
                  fcard (fmdom (fmdrop key (rows t))) + 1 = fcard (fmdom (rows t))
                  \<and> Size (t\<lparr>rows := fmdrop key (rows t)\<rparr>) + 1 = Size t)
             \<and> (fmlookup (rows t) key = None \<longrightarrow>
                  RemoveTableEntry t e = Inr t
                  \<and> ModifyTableEntry t e False = Inl NotFound)))"
proof -
  have inv: "RemoveTableEntry t e = Inl Invalid" if "IsDefaultAction e"
    using that by (simp add: RemoveTableEntry_def)
  have main: "\<exists>key. entryKey t (e\<lparr>Match := sortFieldMatches (Match e)\<rparr>) = Inr key
             \<and> RemoveTableEntry t e = Inr (t\<lparr>rows := fmdrop key (rows t)\<rparr>)
             \<and> RemoveTableEntry (t\<lparr>rows := fmdrop key (rows t)\<rparr>) e
                 = Inr (t\<lparr>rows := fmdrop key (rows t)\<rparr>)
             \<and> fmlookup (fmdrop key (rows t)) key = None
             \<and> (fmlookup (rows t) key \<noteq> None \<longrightarrow>
                  fcard (fmdom (fmdrop key (rows t))) + 1 = fcard (fmdom (rows t))
                  \<and> Size (t\<lparr>rows := fmdrop key (rows t)\<rparr>) + 1 = Size t)
             \<and> (fmlookup (rows t) key = None \<longrightarrow>
                  RemoveTableEntry t e = Inr t
                  \<and> ModifyTableEntry t e False = Inl NotFound)"
    if nd: "\<not> IsDefaultAction e"
      and v: "\<forall>i<length (Match e). validateMatch t i (sortFieldMatches (Match e) ! i) = None"
  proof -
    have "\<forall>i<length (sortFieldMatches (Match e)).
            validateMatch t i (sortFieldMatches (Match e) ! i) = None"
      using v by (simp add: sortFieldMatches_def)
    then have len: "length (sortFieldMatches (Match e)) \<le> length (MatchFields (info t))"
      by (simp only: validateMatch_all)
    define key where "key = sha1 (concat (map (hashMatch []) (sortFieldMatches (Match e))))"
    have k: "entryKey t (e\<lparr>Match := sortFieldMatches (Match e)\<rparr>) = Inr key"
      using len by (simp add: entryKey_eq key_def)
    have r1: "RemoveTableEntry t e = Inr (t\<lparr>rows := fmdrop key (rows t)\<rparr>)"
      using nd k by (simp add: RemoveTableEntry_def)
    have r2: "RemoveTableEntry (t\<lparr>rows := fmdrop key (rows t)\<rparr>) e
                = Inr (t\<lparr>rows := fmdrop key (rows t)\<rparr>)"
      using nd k by (simp add: RemoveTableEntry_def)
    have present: "fcard (fmdom (fmdrop key (rows t))) + 1 = fcard (fmdom (rows t))
                   \<and> Size (t\<lparr>rows := fmdrop key (rows t)\<rparr>) + 1 = Size t"
      if "fmlookup (rows t) key \<noteq> None"
    proof -
      from that have "key |\<in>| fmdom (rows t)"
        by (auto intro: fmdomI)
      then have "fcard (fmdom (rows t)) = Suc (fcard (fmdom (rows t) |-| {|key|}))"
        by (rule fcard_Suc_fminus1 [symmetric])
      then show ?thesis
        by (simp add: Size_def)
    qed
    have absent: "RemoveTableEntry t e = Inr t \<and> ModifyTableEntry t e False = Inl NotFound"
      if "fmlookup (rows t) key = None"
    proof -
      from that have "key |\<notin>| fmdom (rows t)"
        by (rule fmdom_notI)
      then have "fmdrop key (rows t) = rows t"
        by (rule fmdrop_idle)
      with r1 have "RemoveTableEntry t e = Inr t" by simp
      moreover have "ModifyTableEntry t e False = Inl NotFound"
        using nd k that by (simp add: ModifyTableEntry_def)
      ultimately show ?thesis by simp
    qed
    from k r1 r2 present absent show ?thesis
      by (intro exI [of _ key]) simp
  qed
  from inv main show ?thesis by blast
qed

theorem RemoveTableEntry_idempotent_witness:
  "RemoveTableEntry ex_table_1 ex_default = Inl Invalid
   \<and> RemoveTableEntry ex_table_1 ex_entry = Inr ex_table
   \<and> RemoveTableEntry ex_table ex_entry = Inr ex_table
   \<and> Size ex_table + 1 = Size ex_table_1
   \<and> ModifyTableEntry ex_table ex_entry False = Inl NotFound"
proof -
  have d: "IsDefaultAction ex_default" "\<not> IsDefaultAction ex_entry"
    by (simp_all add: ex_default_def ex_entry_def)
  have v: "\<forall>i<length (Match ex_entry).
             validateMatch ex_table_1 i (sortFieldMatches (Match ex_entry) ! i) = None"
    "\<forall>i<length (Match ex_entry).
             validateMatch ex_table i (sortFieldMatches (Match ex_entry) ! i) = None"
    by (simp_all add: ex_entry_def validateMatch_def ex_table_1_def)
  have k: "entryKey ex_table_1 (ex_entry\<lparr>Match := sortFieldMatches (Match ex_entry)\<rparr>)
             = Inr ex_key"
    using ex_entry_key by (simp add: ex_table_1_def)
  have dr: "ex_table_1\<lparr>rows := fmdrop ex_key (rows ex_table_1)\<rparr> = ex_table"
    by (simp add: ex_table_1_def fmdrop_fmupd_same)
  have look: "fmlookup (rows ex_table_1) ex_key \<noteq> None" "fmlookup (rows ex_table) ex_key = None"
    by (simp_all add: ex_table_1_def)
  from RemoveTableEntry_idempotent [of ex_default ex_table_1] d
  have a: "RemoveTableEntry ex_table_1 ex_default = Inl Invalid"
    by simp
  from RemoveTableEntry_idempotent [of ex_entry ex_table_1] d v k look dr
  have b: "RemoveTableEntry ex_table_1 ex_entry = Inr ex_table
           \<and> Size ex_table + 1 = Size ex_table_1"
    by auto
  from RemoveTableEntry_idempotent [of ex_entry ex_table] d v ex_entry_key look
  have c: "RemoveTableEntry ex_table ex_entry = Inr ex_table
           \<and> ModifyTableEntry ex_table ex_entry False = Inl NotFound"
    by auto
  from a b c show ?thesis by simp
qed

subsection \<open>Direct counters and direct meters\<close>

text \<open>
  C8. Let the direct-counter (direct-meter) entry embed a table entry whose sorted match
  list has the key \<open>key\<close>. A modify fails with NotFound when the table has no row at
  \<open>key\<close>. When it has the row \<open>row\<close>, the modify succeeds and the table differs in
  that row only: a direct-counter modify sets its counter data, a direct-meter modify
  its meter config, and the entry of the row and its other overlay fields stay, as do all
  other rows, the default row and the schema. At the registry, a direct-counter or
  direct-meter request with insert set is rejected with Invalid, whatever the registry
  and the entry are.
\<close>

theorem direct_resource_frame:
  "(DirectCounter_TableEntry dce = Some te
      \<and> entryKey t (te\<lparr>Match := sortFieldMatches (Match te)\<rparr>) = Inr key
    \<longrightarrow> (fmlookup (rows t) key = None \<longrightarrow> ModifyDirectCounterEntry t dce = Inl NotFound)
      \<and> (\<forall>row. fmlookup (rows t) key = Some row \<longrightarrow>
            ModifyDirectCounterEntry t dce =
              Inr (t\<lparr>rows := fmupd key (row\<lparr>counterData := DirectCounter_Data dce\<rparr>) (rows t)\<rparr>)
            \<and> entry (row\<lparr>counterData := DirectCounter_Data dce\<rparr>) = entry row
            \<and> meterConfig (row\<lparr>counterData := DirectCounter_Data dce\<rparr>) = meterConfig row
            \<and> meterData (row\<lparr>counterData := DirectCounter_Data dce\<rparr>) = meterData row
            \<and> counterData (row\<lparr>counterData := DirectCounter_Data dce\<rparr>)
                = DirectCounter_Data dce))
   \<and> (DirectMeter_TableEntry dme = Some te
      \<and> entryKey t (te\<lparr>Match := sortFieldMatches (Match te)\<rparr>) = Inr key
    \<longrightarrow> (fmlookup (rows t) key = None \<longrightarrow> ModifyDirectMeterEntry t dme = Inl NotFound)
      \<and> (\<forall>row. fmlookup (rows t) key = Some row \<longrightarrow>
            ModifyDirectMeterEntry t dme =
              Inr (t\<lparr>rows := fmupd key (row\<lparr>meterConfig := DirectMeter_Config dme\<rparr>) (rows t)\<rparr>)
            \<and> entry (row\<lparr>meterConfig := DirectMeter_Config dme\<rparr>) = entry row
            \<and> counterData (row\<lparr>meterConfig := DirectMeter_Config dme\<rparr>) = counterData row
            \<and> meterData (row\<lparr>meterConfig := DirectMeter_Config dme\<rparr>) = meterData row
            \<and> meterConfig (row\<lparr>meterConfig := DirectMeter_Config dme\<rparr>)
                = DirectMeter_Config dme))
   \<and> Tables_ModifyDirectCounterEntry ts dce True = Inl Invalid
   \<and> Tables_ModifyDirectMeterEntry ts dme True = Inl Invalid"
  by (simp add: ModifyDirectCounterEntry_def ModifyDirectMeterEntry_def
        Tables_ModifyDirectCounterEntry_def Tables_ModifyDirectMeterEntry_def)

lemma ex_table_1_lookup: "fmlookup (rows ex_table_1) ex_key = Some (newRow ex_entry)"
  by (simp add: ex_table_1_def)

theorem direct_resource_frame_witness:
  "ModifyDirectCounterEntry ex_table ex_dce = Inl NotFound
   \<and> ModifyDirectMeterEntry ex_table ex_dme = Inl NotFound
   \<and> ModifyDirectCounterEntry ex_table_1 ex_dce
       = Inr (ex_table_1\<lparr>rows :=
                fmupd ex_key ((newRow ex_entry)\<lparr>counterData := DirectCounter_Data ex_dce\<rparr>)
                  (rows ex_table_1)\<rparr>)
   \<and> ModifyDirectMeterEntry ex_table_1 ex_dme
       = Inr (ex_table_1\<lparr>rows :=
                fmupd ex_key ((newRow ex_entry)\<lparr>meterConfig := DirectMeter_Config ex_dme\<rparr>)
                  (rows ex_table_1)\<rparr>)
   \<and> Tables_ModifyDirectCounterEntry ex_tables ex_dce True = Inl Invalid
   \<and> Tables_ModifyDirectMeterEntry ex_tables ex_dme True = Inl Invalid"
proof -
  have te: "DirectCounter_TableEntry ex_dce = Some ex_entry"
    "DirectMeter_TableEntry ex_dme = Some ex_entry"
    by (simp_all add: ex_dce_def ex_dme_def)
  have k1: "entryKey ex_table_1 (ex_entry\<lparr>Match := sortFieldMatches (Match ex_entry)\<rparr>)
              = Inr ex_key"
    using ex_entry_key by (simp add: ex_table_1_def)
  have absent: "fmlookup (rows ex_table) ex_key = None"
    by simp
  from direct_resource_frame [of ex_dce ex_entry ex_table ex_key ex_dme ex_tables]
    te ex_entry_key absent
  have a: "ModifyDirectCounterEntry ex_table ex_dce = Inl NotFound
           \<and> ModifyDirectMeterEntry ex_table ex_dme = Inl NotFound
           \<and> Tables_ModifyDirectCounterEntry ex_tables ex_dce True = Inl Invalid
           \<and> Tables_ModifyDirectMeterEntry ex_tables ex_dme True = Inl Invalid"
    by simp
  from direct_resource_frame [of ex_dce ex_entry ex_table_1 ex_key ex_dme ex_tables]
    te k1 ex_table_1_lookup
  have b: "ModifyDirectCounterEntry ex_table_1 ex_dce
       = Inr (ex_table_1\<lparr>rows :=
                fmupd ex_key ((newRow ex_entry)\<lparr>counterData := DirectCounter_Data ex_dce\<rparr>)
                  (rows ex_table_1)\<rparr>)
   \<and> ModifyDirectMeterEntry ex_table_1 ex_dme
       = Inr (ex_table_1\<lparr>rows :=
                fmupd ex_key ((newRow ex_entry)\<lparr>meterConfig := DirectMeter_Config ex_dme\<rparr>)
                  (rows ex_table_1)\<rparr>)"
    by simp
  from a b show ?thesis by simp
qed

subsection \<open>Reading in batches\<close>

lemma sendEntity_recording:
  assumes "sender b = recording sndr" and "cap b = 64" and "length (entities b) < 64"
  shows "sendEntity b e (s, log) =
     (if length (entities b) = 63
      then (fst (sndr (entities b @ [e]) s), b\<lparr>entities := []\<rparr>,
            (snd (sndr (entities b @ [e]) s),
             log @ [(entities b @ [e], fst (sndr (entities b @ [e]) s))]))
      else (None, b\<lparr>entities := entities b @ [e]\<rparr>, (s, log)))"
  using assms
  by (auto simp: sendEntity_def flush_def recording_def Let_def split: prod.splits)

lemma loop_recording:
  assumes "sender b = recording sndr" and "cap b = 64" and "length (entities b) < 64"
    and "ReadTableEntries_loop t q rt rs b (s, log) = (r, b', (s', log'))"
  shows "\<exists>new. log' = log @ new
     \<and> (\<forall>x\<in>set new. length (fst x) = 64)
     \<and> (\<forall>x\<in>set (butlast new). snd x = None)
     \<and> ((\<forall>batch st. fst (sndr batch st) = None) \<longrightarrow> (\<forall>x\<in>set new. snd x = None))
     \<and> (case r of
          None \<Rightarrow> (\<forall>x\<in>set new. snd x = None)
                 \<and> sender b' = recording sndr \<and> cap b' = 64 \<and> length (entities b') < 64
                 \<and> concat (map fst new) @ entities b' = entities b @ map (getEntry rt) rs
        | Some err \<Rightarrow> new \<noteq> [] \<and> snd (last new) = Some err
                 \<and> (\<exists>rest. concat (map fst new) @ rest = entities b @ map (getEntry rt) rs))"
  using assms
proof (induction rs arbitrary: b s log)
  case Nil
  then show ?case by simp
next
  case (Cons row rs)
  let ?e = "getEntry rt row"
  let ?batch = "entities b @ [?e]"
  note se = sendEntity_recording [OF Cons.prems(1-3), of ?e s log]
  show ?case
  proof (cases "length (entities b) = 63")
    case False
    let ?b1 = "b\<lparr>entities := ?batch\<rparr>"
    from False Cons.prems(3) have l1: "length (entities ?b1) < 64" by simp
    from Cons.prems(4) False se
    have run: "ReadTableEntries_loop t q rt rs ?b1 (s, log) = (r, b', (s', log'))"
      by (simp add: tableEntryMatches_def)
    have "sender ?b1 = recording sndr" "cap ?b1 = 64"
      using Cons.prems(1,2) by simp_all
    from Cons.IH [OF this l1 run] show ?thesis
      by (auto split: option.splits)
  next
    case True
    let ?r0 = "fst (sndr ?batch s)"
    let ?s0 = "snd (sndr ?batch s)"
    let ?b1 = "b\<lparr>entities := []\<rparr>"
    have full: "length ?batch = 64" using True by simp
    show ?thesis
    proof (cases ?r0)
      case (Some err)
      with Cons.prems(4) True se
      have "r = Some err" "log' = log @ [(?batch, Some err)]"
        by (auto simp: tableEntryMatches_def)
      with full Some show ?thesis
        by (intro exI [of _ "[(?batch, Some err)]"]) auto
    next
      case None
      with Cons.prems(4) True se
      have run: "ReadTableEntries_loop t q rt rs ?b1 (?s0, log @ [(?batch, None)])
                   = (r, b', (s', log'))"
        by (simp add: tableEntryMatches_def)
      have "sender ?b1 = recording sndr" "cap ?b1 = 64" "length (entities ?b1) < 64"
        using Cons.prems(1,2) by simp_all
      from Cons.IH [OF this run] obtain new where
        n: "log' = (log @ [(?batch, None)]) @ new"
          "\<forall>x\<in>set new. length (fst x) = 64"
          "\<forall>x\<in>set (butlast new). snd x = None"
          "(\<forall>batch st. fst (sndr batch st) = None) \<longrightarrow> (\<forall>x\<in>set new. snd x = None)"
          "case r of
            None \<Rightarrow> (\<forall>x\<in>set new. snd x = None)
                 \<and> sender b' = recording sndr \<and> cap b' = 64 \<and> length (entities b') < 64
                 \<and> concat (map fst new) @ entities b' = entities ?b1 @ map (getEntry rt) rs
          | Some err \<Rightarrow> new \<noteq> [] \<and> snd (last new) = Some err
                 \<and> (\<exists>rest. concat (map fst new) @ rest = entities ?b1 @ map (getEntry rt) rs)"
        by blast
      show ?thesis
      proof (intro exI [of _ "(?batch, None) # new"] conjI)
        show "log' = log @ (?batch, None) # new" using n(1) by simp
        show "\<forall>x\<in>set ((?batch, None) # new). length (fst x) = 64"
          using n(2) full by simp
        show "\<forall>x\<in>set (butlast ((?batch, None) # new)). snd x = None"
          using n(3) by simp
        show "(\<forall>batch st. fst (sndr batch st) = None)
                \<longrightarrow> (\<forall>x\<in>set ((?batch, None) # new). snd x = None)"
          using n(4) by simp
        show "case r of
            None \<Rightarrow> (\<forall>x\<in>set ((?batch, None) # new). snd x = None)
                 \<and> sender b' = recording sndr \<and> cap b' = 64 \<and> length (entities b') < 64
                 \<and> concat (map fst ((?batch, None) # new)) @ entities b'
                     = entities b @ map (getEntry rt) (row # rs)
          | Some err \<Rightarrow> (?batch, None) # new \<noteq> [] \<and> snd (last ((?batch, None) # new)) = Some err
                 \<and> (\<exists>rest. concat (map fst ((?batch, None) # new)) @ rest
                       = entities b @ map (getEntry rt) (row # rs))"
          using n(5) by (auto split: option.splits)
      qed
    qed
  qed
qed


lemma loop_append:
  "ReadTableEntries_loop t q rt (xs @ ys) b s =
     (case ReadTableEntries_loop t q rt xs b s of
        (Some err, b', s') \<Rightarrow> (Some err, b', s')
      | (None, b', s') \<Rightarrow> ReadTableEntries_loop t q rt ys b' s')"
  by (induction xs arbitrary: b s) (auto split: prod.splits option.splits)

lemma ReadTableEntries_eq:
  "ReadTableEntries t order q rt sndr s =
     (case ReadTableEntries_loop t q rt
             (rowsInOrder t order @ (case defaultRow t of None \<Rightarrow> [] | Some row \<Rightarrow> [row]))
             (newBuffer sndr) s of
        (Some err, b, s') \<Rightarrow> (Some err, s')
      | (None, b, s') \<Rightarrow> (case flush b s' of (err, b', s'') \<Rightarrow> (err, s'')))"
  by (simp add: ReadTableEntries_def loop_append tableEntryMatches_def
        split: option.splits prod.splits)

lemma full_batches_length:
  assumes "\<forall>x\<in>set new. length (fst x) = (64::nat)"
  shows "length (concat (map fst new)) = 64 * length new"
  using assms by (induction new) simp_all

lemma full_batches_sizes:
  assumes "\<forall>x\<in>set new. length (fst x) = (64::nat)"
  shows "map (length \<circ> fst) new = replicate (length new) 64"
  using assms by (induction new) simp_all

lemma read_recording:
  assumes run: "ReadTableEntries t order q rt (recording sndr) (s, []) = (r, s', log)"
  shows "log \<noteq> [] \<and> r = snd (last log)
       \<and> (\<forall>x\<in>set (butlast log). snd x = None \<and> length (fst x) = 64)
       \<and> length (fst (last log)) \<le> 64
       \<and> (\<exists>rest. concat (map fst log) @ rest = readEntities t order rt)
       \<and> (r = None \<or> length (fst (last log)) \<noteq> 64 \<longrightarrow>
             concat (map fst log) = readEntities t order rt
             \<and> map (length \<circ> fst) log
                 = replicate (length (readEntities t order rt) div 64) 64
                   @ [length (readEntities t order rt) mod 64])
       \<and> ((\<forall>batch st. fst (sndr batch st) = None) \<longrightarrow> r = None)"
proof -
  let ?rs = "rowsInOrder t order @ (case defaultRow t of None \<Rightarrow> [] | Some row \<Rightarrow> [row])"
  let ?es = "readEntities t order rt"
  have es: "?es = map (getEntry rt) ?rs"
    by (simp add: readEntities_def)
  obtain r1 b1 s1 log1 where
    loop: "ReadTableEntries_loop t q rt ?rs (newBuffer (recording sndr)) (s, [])
             = (r1, b1, (s1, log1))"
    by (metis prod_cases3)
  have nb: "sender (newBuffer (recording sndr)) = recording sndr"
    "cap (newBuffer (recording sndr)) = 64"
    "length (entities (newBuffer (recording sndr))) < 64"
    by (simp_all add: newBuffer_def)
  define new where "new = log1"
  from loop_recording [OF nb loop] have
    "(\<forall>x\<in>set log1. length (fst x) = 64)
     \<and> (\<forall>x\<in>set (butlast log1). snd x = None)
     \<and> ((\<forall>batch st. fst (sndr batch st) = None) \<longrightarrow> (\<forall>x\<in>set log1. snd x = None))
     \<and> (case r1 of
          None \<Rightarrow> (\<forall>x\<in>set log1. snd x = None)
                 \<and> sender b1 = recording sndr \<and> cap b1 = 64 \<and> length (entities b1) < 64
                 \<and> concat (map fst log1) @ entities b1 = ?es
        | Some err \<Rightarrow> log1 \<noteq> [] \<and> snd (last log1) = Some err
                 \<and> (\<exists>rest. concat (map fst log1) @ rest = ?es))"
    by (auto simp: newBuffer_def es split: option.splits)
  then have
    n: "log1 = new"
      "\<forall>x\<in>set new. length (fst x) = 64"
      "\<forall>x\<in>set (butlast new). snd x = None"
      "(\<forall>batch st. fst (sndr batch st) = None) \<longrightarrow> (\<forall>x\<in>set new. snd x = None)"
      "case r1 of
          None \<Rightarrow> (\<forall>x\<in>set new. snd x = None)
                 \<and> sender b1 = recording sndr \<and> cap b1 = 64 \<and> length (entities b1) < 64
                 \<and> concat (map fst new) @ entities b1 = ?es
        | Some err \<Rightarrow> new \<noteq> [] \<and> snd (last new) = Some err
                 \<and> (\<exists>rest. concat (map fst new) @ rest = ?es)"
    unfolding new_def by blast+
  show ?thesis
  proof (cases r1)
    case (Some err)
    with run loop have res: "r = Some err" "log = new"
      by (simp_all add: ReadTableEntries_eq n(1))
    from Some n(5) have f: "new \<noteq> []" "snd (last new) = Some err"
      "\<exists>rest. concat (map fst new) @ rest = ?es"
      by simp_all
    from f(1) have "last new \<in> set new" by simp
    with n(2) have l64: "length (fst (last new)) = 64" by blast
    have bl: "\<forall>x\<in>set (butlast new). snd x = None \<and> length (fst x) = 64"
      using n(2,3) by (auto dest: in_set_butlastD)
    have nf: "\<not> (\<forall>batch st. fst (sndr batch st) = None)"
    proof
      assume "\<forall>batch st. fst (sndr batch st) = None"
      with n(4) have "\<forall>x\<in>set new. snd x = None" by blast
      with \<open>last new \<in> set new\<close> f(2) show False by simp
    qed
    from res f l64 bl nf show ?thesis by simp
  next
    case None
    let ?rf = "fst (sndr (entities b1) s1)"
    from None n(5) have f: "\<forall>x\<in>set new. snd x = None" "sender b1 = recording sndr"
      "length (entities b1) < 64" "concat (map fst new) @ entities b1 = ?es"
      by simp_all
    from run loop None f(2)
    have res: "r = ?rf" "log = new @ [(entities b1, ?rf)]"
      by (auto simp: ReadTableEntries_eq n(1) flush_def recording_def split: prod.splits)
    have len: "length ?es = 64 * length new + length (entities b1)"
      using f(4) full_batches_length [OF n(2)] by (metis length_append)
    have dv: "length ?es div 64 = length new" and md: "length ?es mod 64 = length (entities b1)"
      using len f(3) by simp_all
    have sizes: "map (length \<circ> fst) log
                   = replicate (length ?es div 64) 64 @ [length ?es mod 64]"
      by (simp add: res(2) full_batches_sizes [OF n(2)] dv md)
    have bl: "\<forall>x\<in>set (butlast log). snd x = None \<and> length (fst x) = 64"
      using n(2) f(1) by (simp add: res(2))
    have cc: "concat (map fst log) = ?es"
      using f(4) by (simp add: res(2))
    have nf: "(\<forall>batch st. fst (sndr batch st) = None) \<longrightarrow> r = None"
      by (simp add: res(1))
    from res bl cc sizes nf f(3) show ?thesis by simp
  qed
qed

lemma length_rowsInOrder:
  assumes "distinct order" and "set order = fmdom' (rows t)"
  shows "length (rowsInOrder t order) = fcard (fmdom (rows t))"
proof -
  have "filter (\<lambda>k. fmlookup (rows t) k \<noteq> None) order = order"
    using assms(2) by (auto simp: filter_id_conv fmlookup_dom'_iff)
  then have "length (rowsInOrder t order) = length order"
    by (simp add: rowsInOrder_def List.map_filter_def)
  also have "\<dots> = card (set order)"
    using assms(1) by (simp add: distinct_card)
  also have "\<dots> = fcard (fmdom (rows t))"
    by (simp add: assms(2) fmdom'_alt_def fcard.rep_eq)
  finally show ?thesis .
qed


text \<open>
  C9. A new buffer is empty and has capacity 64. \<^const>\<open>sendEntity\<close> appends the
  entity; when the buffer thereby reaches its capacity the sender is invoked with the
  whole buffer, the buffer is emptied and the sender's result is returned; while the
  buffer stays below its capacity the sender is not invoked. For a read through a recording sender, with \<open>log\<close> the
  invocations in order: there is at least one invocation, the result of the read is the
  result of the last invocation, and every invocation before the last succeeded with a
  batch of exactly 64 entities, so the first failing invocation ends the read with its
  error. The batches are consecutive segments of the entities to produce. When the read
  succeeds (or the last batch is not a full one), the batches are all the entities to
  produce: \<open>n div 64\<close> batches of 64 and a last batch of \<open>n mod 64\<close> entities, which
  may be empty. With a sender that never fails the read succeeds, and for a table of 130
  rows without default row the batch sizes are 64, 64, 2.
\<close>

theorem ReadTableEntries_batches:
  "entities (newBuffer sndr) = [] \<and> cap (newBuffer sndr) = 64
   \<and> (length (entities eb) + 1 = cap eb \<longrightarrow>
        sendEntity eb e s =
          (case sender eb (entities eb @ [e]) s of (err, s') \<Rightarrow> (err, eb\<lparr>entities := []\<rparr>, s')))
   \<and> (length (entities eb) + 1 < cap eb \<longrightarrow>
        sendEntity eb e s = (None, eb\<lparr>entities := entities eb @ [e]\<rparr>, s))
   \<and> (ReadTableEntries t order q rt (recording sndr) (s0, []) = (r, s1, log) \<longrightarrow>
        log \<noteq> [] \<and> r = snd (last log)
        \<and> (\<forall>x\<in>set (butlast log). snd x = None \<and> length (fst x) = 64)
        \<and> length (fst (last log)) \<le> 64
        \<and> (\<exists>rest. concat (map fst log) @ rest = readEntities t order rt)
        \<and> (r = None \<or> length (fst (last log)) \<noteq> 64 \<longrightarrow>
              concat (map fst log) = readEntities t order rt
              \<and> map (length \<circ> fst) log
                  = replicate (length (readEntities t order rt) div 64) 64
                    @ [length (readEntities t order rt) mod 64])
        \<and> ((\<forall>batch st. fst (sndr batch st) = None) \<longrightarrow> r = None)
        \<and> (distinct order \<and> set order = fmdom' (rows t) \<and> fcard (fmdom (rows t)) = 130
             \<and> defaultRow t = None \<and> (\<forall>batch st. fst (sndr batch st) = None)
            \<longrightarrow> map (length \<circ> fst) log = [64, 64, 2]))"
proof -
  have buf: "entities (newBuffer sndr) = [] \<and> cap (newBuffer sndr) = 64"
    by (simp add: newBuffer_def)
  have full: "sendEntity eb e s =
          (case sender eb (entities eb @ [e]) s of (err, s') \<Rightarrow> (err, eb\<lparr>entities := []\<rparr>, s'))"
    if "length (entities eb) + 1 = cap eb"
    using that by (simp add: sendEntity_def flush_def Let_def)
  have part: "sendEntity eb e s = (None, eb\<lparr>entities := entities eb @ [e]\<rparr>, s)"
    if "length (entities eb) + 1 < cap eb"
    using that by (simp add: sendEntity_def Let_def)
  have rd: "log \<noteq> [] \<and> r = snd (last log)
        \<and> (\<forall>x\<in>set (butlast log). snd x = None \<and> length (fst x) = 64)
        \<and> length (fst (last log)) \<le> 64
        \<and> (\<exists>rest. concat (map fst log) @ rest = readEntities t order rt)
        \<and> (r = None \<or> length (fst (last log)) \<noteq> 64 \<longrightarrow>
              concat (map fst log) = readEntities t order rt
              \<and> map (length \<circ> fst) log
                  = replicate (length (readEntities t order rt) div 64) 64
                    @ [length (readEntities t order rt) mod 64])
        \<and> ((\<forall>batch st. fst (sndr batch st) = None) \<longrightarrow> r = None)
        \<and> (distinct order \<and> set order = fmdom' (rows t) \<and> fcard (fmdom (rows t)) = 130
             \<and> defaultRow t = None \<and> (\<forall>batch st. fst (sndr batch st) = None)
            \<longrightarrow> map (length \<circ> fst) log = [64, 64, 2])"
    if run: "ReadTableEntries t order q rt (recording sndr) (s0, []) = (r, s1, log)"
  proof -
    note gen = read_recording [OF run]
    have "map (length \<circ> fst) log = [64, 64, 2]"
      if h: "distinct order" "set order = fmdom' (rows t)" "fcard (fmdom (rows t)) = 130"
        "defaultRow t = None" "\<forall>batch st. fst (sndr batch st) = None"
    proof -
      have n: "length (readEntities t order rt) = 130"
        using length_rowsInOrder [OF h(1,2)] h(3,4) by (simp add: readEntities_def)
      from gen h(5) have "r = None" by blast
      with gen have "map (length \<circ> fst) log
                  = replicate (length (readEntities t order rt) div 64) 64
                    @ [length (readEntities t order rt) mod 64]"
        by blast
      then have "map (length \<circ> fst) log = replicate 2 64 @ [2]"
        by (simp add: n)
      then show ?thesis
        by (simp add: numeral_2_eq_2)
    qed
    with gen show ?thesis by blast
  qed
  from buf full part rd show ?thesis by blast
qed

lemma ex_order_130_distinct: "distinct ex_order_130"
proof -
  have "inj_on (\<lambda>i. [of_nat i :: byte]) (set [0..<130])"
  proof (rule inj_onI)
    fix i j :: nat
    assume "i \<in> set [0..<130]" and "j \<in> set [0..<130]"
      and "[of_nat i :: byte] = [of_nat j]"
    then have b: "i < 130" "j < 130" and "unat (of_nat i :: byte) = unat (of_nat j :: byte)"
      by simp_all
    then have "i mod 256 = j mod 256"
      by (simp add: unat_of_nat)
    with b show "i = j"
      by simp
  qed
  then show ?thesis
    by (simp add: ex_order_130_def distinct_map)
qed

lemma ex_order_130_length: "length ex_order_130 = 130"
  by (simp add: ex_order_130_def)

lemma ex_table_130_keys: "set ex_order_130 = fmdom' (rows ex_table_130)"
  by (simp add: ex_table_130_def fmdom'_alt_def fset_of_list.rep_eq comp_def)

lemma ex_table_130_count: "fcard (fmdom (rows ex_table_130)) = 130"
proof -
  have "fcard (fmdom (rows ex_table_130)) = card (set ex_order_130)"
    by (simp add: ex_table_130_keys fmdom'_alt_def fcard.rep_eq)
  also have "\<dots> = 130"
    using ex_order_130_distinct by (simp add: distinct_card ex_order_130_length)
  finally show ?thesis .
qed

lemma ex_table_130_defaultRow: "defaultRow ex_table_130 = None"
  by (simp add: ex_table_130_def)

lemma ex_failing_run:
  "ReadTableEntries ex_table_1 [ex_key] ex_entry ReadTableEntry (recording ex_sender_failing) ((), [])
     = (Some Invalid, (), [([Entity_TableEntry ex_entry], Some Invalid)])"
  by (simp add: ReadTableEntries_def rowsInOrder_def ex_table_1_def tableEntryMatches_def
        sendEntity_def newBuffer_def flush_def recording_def ex_sender_failing_def getEntry_def)

theorem ReadTableEntries_batches_witness:
  "fst (ReadTableEntries ex_table_130 ex_order_130 ex_entry ReadTableEntry
          (recording ex_sender) ((), [])) = None
   \<and> map (length \<circ> fst)
        (snd (snd (ReadTableEntries ex_table_130 ex_order_130 ex_entry ReadTableEntry
                     (recording ex_sender) ((), [])))) = [64, 64, 2]
   \<and> ReadTableEntries ex_table_1 [ex_key] ex_entry ReadTableEntry
        (recording ex_sender_failing) ((), [])
       = (Some Invalid, (), [([Entity_TableEntry ex_entry], Some Invalid)])
   \<and> Some Invalid = snd (last [([Entity_TableEntry ex_entry], Some Invalid)])
   \<and> sendEntity ((newBuffer ex_sender)\<lparr>entities := replicate 63 (Entity_TableEntry ex_entry)\<rparr>)
        (Entity_TableEntry ex_entry) ()
       = (None, newBuffer ex_sender, ())
   \<and> sendEntity (newBuffer ex_sender) (Entity_TableEntry ex_entry) ()
       = (None, (newBuffer ex_sender)\<lparr>entities := [Entity_TableEntry ex_entry]\<rparr>, ())"
proof -
  let ?e = "Entity_TableEntry ex_entry"
  let ?full = "(newBuffer ex_sender)\<lparr>entities := replicate 63 ?e\<rparr>"
  obtain r s1 log where
    run: "ReadTableEntries ex_table_130 ex_order_130 ex_entry ReadTableEntry
            (recording ex_sender) ((), []) = (r, s1, log)"
    by (metis prod_cases3)
  have ok: "\<forall>batch st. fst (ex_sender batch st) = None"
    by (simp add: ex_sender_def)
  from ReadTableEntries_batches
         [of ex_sender ?full ?e "()" ex_table_130 ex_order_130 ex_entry ReadTableEntry "()" r s1 log]
       run ok ex_order_130_distinct ex_table_130_keys ex_table_130_count ex_table_130_defaultRow
  have a: "r = None" "map (length \<circ> fst) log = [64, 64, 2]"
    by blast+
  have c1: "length (entities ?full) + 1 = cap ?full"
    by (simp add: newBuffer_def)
  from ReadTableEntries_batches
         [of ex_sender ?full ?e "()" ex_table_130 ex_order_130 ex_entry ReadTableEntry "()" r s1 log]
       c1
  have b: "sendEntity ?full ?e () = (None, newBuffer ex_sender, ())"
    by (simp add: newBuffer_def ex_sender_def)
  have c2: "length (entities (newBuffer ex_sender)) + 1 < cap (newBuffer ex_sender)"
    by (simp add: newBuffer_def)
  from ReadTableEntries_batches
         [of ex_sender_failing "newBuffer ex_sender" ?e "()" ex_table_1 "[ex_key]" ex_entry
             ReadTableEntry "()" "Some Invalid" "()" "[([?e], Some Invalid)]"]
       c2 ex_failing_run
  have c: "sendEntity (newBuffer ex_sender) ?e ()
             = (None, (newBuffer ex_sender)\<lparr>entities := [?e]\<rparr>, ())"
    "Some Invalid = snd (last [([?e], Some Invalid)])"
    by (simp_all add: newBuffer_def)
  from a b c run ex_failing_run show ?thesis
    by simp
qed

subsection \<open>The descriptor handed to NewTable\<close>

text \<open>
  C10, as the code has it. \<^const>\<open>NewTable\<close> sorts the match-field list of the
  descriptor it is handed, stably by field ID, in the caller's descriptor itself, and the
  table keeps that descriptor: after the call the caller's descriptor has the same
  preamble and the same fields, in ascending order of field ID, and it is unchanged
  exactly when its fields were in ascending order of field ID before.
\<close>

theorem NewTable_sorts_descriptor:
  "fst (NewTable d) = d\<lparr>MatchFields := sort_key MatchField_Id (MatchFields d)\<rparr>
   \<and> info (snd (NewTable d)) = fst (NewTable d)
   \<and> Preamble (fst (NewTable d)) = Preamble d
   \<and> mset (MatchFields (fst (NewTable d))) = mset (MatchFields d)
   \<and> sorted (map MatchField_Id (MatchFields (fst (NewTable d))))
   \<and> (fst (NewTable d) = d \<longleftrightarrow> sorted (map MatchField_Id (MatchFields d)))"
proof -
  let ?s = "sort_key MatchField_Id (MatchFields d)"
  have f: "fst (NewTable d) = d\<lparr>MatchFields := ?s\<rparr>"
    and i: "info (snd (NewTable d)) = fst (NewTable d)"
    by (simp_all add: NewTable_def Let_def)
  have "d\<lparr>MatchFields := ?s\<rparr> = d \<longleftrightarrow> sorted (map MatchField_Id (MatchFields d))"
  proof
    assume "d\<lparr>MatchFields := ?s\<rparr> = d"
    then have "MatchFields (d\<lparr>MatchFields := ?s\<rparr>) = MatchFields d"
      by simp
    then have "?s = MatchFields d"
      by simp
    moreover have "sorted (map MatchField_Id ?s)"
      by simp
    ultimately show "sorted (map MatchField_Id (MatchFields d))"
      by simp
  next
    assume "sorted (map MatchField_Id (MatchFields d))"
    then have "?s = MatchFields d"
      by (rule sort_key_id_if_sorted)
    then show "d\<lparr>MatchFields := ?s\<rparr> = d"
      by simp
  qed
  with f i show ?thesis by simp
qed

theorem NewTable_sorts_descriptor_witness:
  "fst (NewTable ex_info) \<noteq> ex_info
   \<and> \<not> sorted (map MatchField_Id (MatchFields ex_info))
   \<and> fst (NewTable (info ex_table)) = info ex_table
   \<and> sorted (map MatchField_Id (MatchFields (info ex_table)))"
proof -
  have a: "\<not> sorted (map MatchField_Id (MatchFields ex_info))"
    by (simp add: ex_info_def word_le_nat_alt)
  have b: "sorted (map MatchField_Id (MatchFields (info ex_table)))"
    by (simp add: ex_table_eq word_le_nat_alt)
  from NewTable_sorts_descriptor [of ex_info] NewTable_sorts_descriptor [of "info ex_table"] a b
  show ?thesis by blast
qed

text \<open>
  Against C10 as stated: the descriptor of the example lists field 2 before field 1;
  after \<^const>\<open>NewTable\<close> the caller's descriptor lists field 1 before field 2.
\<close>

theorem NewTable_reorders_caller_descriptor:
  "map MatchField_Id (MatchFields ex_info) = [2, 1]
   \<and> map MatchField_Id (MatchFields (fst (NewTable ex_info))) = [1, 2]
   \<and> fst (NewTable ex_info) \<noteq> ex_info"
proof -
  have a: "map MatchField_Id (MatchFields ex_info) = [2, 1]"
    by (simp add: ex_info_def)
  have b: "map MatchField_Id (MatchFields (fst (NewTable ex_info))) = [1, 2]"
    by (simp add: ex_info_def NewTable_def Let_def word_le_nat_alt)
  have "fst (NewTable ex_info) \<noteq> ex_info"
  proof
    assume "fst (NewTable ex_info) = ex_info"
    with a b show False by simp
  qed
  with a b show ?thesis by simp
qed

end
